theory Spec2Isabelle
  imports Main
begin

section \<open>Thumbnail generator: the Lambda handler of lambda/thumbnail_generator.py\<close>

text \<open>
  The repository holds one Python function, \<open>lambda_handler(event, context)\<close>. It reads the
  bucket name and the object key of the first record of an S3 notification, derives the key
  of the thumbnail, fetches the object, shrinks it with Pillow, saves it as JPEG and puts it
  into the bucket named by the environment variable \<open>DEST_BUCKET\<close>.

  The handler calls three libraries that are not part of the repository: the Python standard
  library (\<open>os.path.splitext\<close>, \<open>os.environ\<close>), boto3 (\<open>get_object\<close>, \<open>put_object\<close>) and Pillow
  (\<open>Image.open\<close>, \<open>Image.thumbnail\<close>, \<open>Image.save\<close>). \<open>os.path.splitext\<close> is a pure string
  function and is transcribed below from CPython; boto3 and Pillow are parameters of the
  handler (the record \<open>services\<close>), so that a theorem about the handler holds for any
  behaviour of the storage service and of the image library, unless it names in its
  hypotheses the storage model (\<open>s3_get_object\<close>, \<open>s3_put_object\<close>) or the size rule of the
  resize (\<open>follows_size_rule\<close>), which are written from the spec.
\<close>

subsection \<open>Python strings: \<open>str.rfind\<close> and slicing\<close>

text \<open>
  \<open>p.rfind(c)\<close> for a one-character \<open>c\<close>: the highest index at which \<open>c\<close> occurs in \<open>p\<close>,
  or \<open>-1\<close> when it does not occur.
\<close>

fun rfind :: "string \<Rightarrow> char \<Rightarrow> int" where
  "rfind [] c = - 1"
| "rfind (x # xs) c =
     (let r = rfind xs c in if 0 \<le> r then r + 1 else if x = c then 0 else - 1)"

text \<open>
  A slice bound of Python: a negative bound counts from the end, and every bound is clamped
  to the length of the sequence.
\<close>

definition clamp_index :: "nat \<Rightarrow> int \<Rightarrow> nat" where
  "clamp_index n i = (if i < 0 then nat (max (i + int n) 0) else min (nat i) n)"

text \<open>\<open>p[i:j]\<close>; an omitted bound is \<open>None\<close>.\<close>

definition slice :: "'a list \<Rightarrow> int option \<Rightarrow> int option \<Rightarrow> 'a list" where
  "slice p i j =
     (let n = length p;
          a = (case i of None \<Rightarrow> 0 | Some i' \<Rightarrow> clamp_index n i');
          b = (case j of None \<Rightarrow> n | Some j' \<Rightarrow> clamp_index n j')
      in take (b - a) (drop a p))"

subsection \<open>\<open>os.path.splitext\<close>\<close>

text \<open>
  The handler runs on Linux, where \<open>os.path\<close> is \<open>posixpath\<close> and \<open>splitext(p)\<close> is
  \<open>genericpath._splitext(p, sep, altsep, extsep)\<close> with \<open>sep = '/'\<close>, \<open>altsep = None\<close> and
  \<open>extsep = '.'\<close>:
  \<^verbatim>\<open>
    sepIndex = p.rfind(sep)
    dotIndex = p.rfind(extsep)
    if dotIndex > sepIndex:
        # skip all leading dots
        filenameIndex = sepIndex + 1
        while filenameIndex < dotIndex:
            if p[filenameIndex:filenameIndex+1] != extsep:
                return p[:dotIndex], p[dotIndex:]
            filenameIndex += 1
    return p, p[:0]
  \<close>
  The loop is \<open>skip_leading_dots\<close>: it returns the split at the first character of the file
  name that is not a dot, and the unsplit path when every character before the last dot is
  a dot.
\<close>

definition sep :: char where
  "sep = CHR ''/''"

definition extsep :: char where
  "extsep = CHR ''.''"

function skip_leading_dots :: "string \<Rightarrow> int \<Rightarrow> int \<Rightarrow> string \<times> string" where
  "skip_leading_dots p dotIndex filenameIndex =
     (if filenameIndex < dotIndex then
        (if slice p (Some filenameIndex) (Some (filenameIndex + 1)) \<noteq> [extsep]
         then (slice p None (Some dotIndex), slice p (Some dotIndex) None)
         else skip_leading_dots p dotIndex (filenameIndex + 1))
      else (p, slice p None (Some 0)))"
  by pat_completeness auto
termination
  by (relation "measure (\<lambda>(p, dotIndex, filenameIndex). nat (dotIndex - filenameIndex))") auto

definition splitext :: "string \<Rightarrow> string \<times> string" where
  "splitext p =
     (let sepIndex = rfind p sep;
          dotIndex = rfind p extsep
      in if dotIndex > sepIndex then skip_leading_dots p dotIndex (sepIndex + 1)
         else (p, slice p None (Some 0)))"

text \<open>
  Lines 22 and 23 of the handler, for a key that is a string:
  \<^verbatim>\<open>
    thumbnail_name, thumbnail_ext = os.path.splitext(key)
    thumbnail_key = f"{thumbnail_name}_thumbnail{thumbnail_ext}"
  \<close>
\<close>

definition thumbnail_key :: "string \<Rightarrow> string" where
  "thumbnail_key key =
     (case splitext key of
        (thumbnail_name, thumbnail_ext) \<Rightarrow> thumbnail_name @ ''_thumbnail'' @ thumbnail_ext)"

subsection \<open>Events, exceptions and subscripts\<close>

text \<open>
  The event is whatever JSON value the invoker sends, decoded by the Lambda runtime: the
  handler does not validate it. An object is an association list read with \<open>map_of\<close>; a
  number is an integer (the handler never computes with one).
\<close>

datatype json =
    JNull
  | JBool bool
  | JNum int
  | JStr string
  | JList "json list"
  | JObj "(string \<times> json) list"

text \<open>
  The exceptions an invocation can end with. \<open>LibraryError\<close> stands for whatever boto3 or
  Pillow raise themselves (\<open>ClientError\<close>, \<open>UnidentifiedImageError\<close>, \<open>OSError\<close>, ...);
  \<open>Exception\<close> is the one the handler raises at line 45, with its message.
\<close>

datatype exn =
    KeyError string
  | IndexError
  | TypeError
  | LibraryError string
  | Exception string

definition and_then :: "exn + 'a \<Rightarrow> ('a \<Rightarrow> exn + 'b) \<Rightarrow> exn + 'b" where
  "and_then r f = (case r of Inl e \<Rightarrow> Inl e | Inr v \<Rightarrow> f v)"

text \<open>
  \<open>v[k]\<close> for a string \<open>k\<close>: a dict raises \<open>KeyError\<close> on a missing key; a list, a string, a
  number, a boolean and \<open>None\<close> raise \<open>TypeError\<close>.
\<close>

fun getitem :: "json \<Rightarrow> string \<Rightarrow> exn + json" where
  "getitem (JObj kvs) k = (case map_of kvs k of None \<Rightarrow> Inl (KeyError k) | Some v \<Rightarrow> Inr v)"
| "getitem _ k = Inl TypeError"

text \<open>
  \<open>v[0]\<close>: the first element of a list or the first character of a string, \<open>IndexError\<close>
  when it is empty; a dict decoded from JSON has string keys only, so \<open>v[0]\<close> raises
  \<open>KeyError(0)\<close>; a number, a boolean and \<open>None\<close> raise \<open>TypeError\<close>.
\<close>

fun getitem0 :: "json \<Rightarrow> exn + json" where
  "getitem0 (JList xs) = (case xs of [] \<Rightarrow> Inl IndexError | x # _ \<Rightarrow> Inr x)"
| "getitem0 (JStr s) = (case s of [] \<Rightarrow> Inl IndexError | c # _ \<Rightarrow> Inr (JStr [c]))"
| "getitem0 (JObj kvs) = Inl (KeyError ''0'')"
| "getitem0 _ = Inl TypeError"

text \<open>\<open>event["Records"][0]\<close>, which lines 17 and 18 both evaluate.\<close>

definition first_record :: "json \<Rightarrow> exn + json" where
  "first_record event = and_then (getitem event ''Records'') getitem0"

text \<open>\<open>record["s3"]["bucket"]["name"]\<close> and \<open>record["s3"]["object"]["key"]\<close>.\<close>

definition record_bucket :: "json \<Rightarrow> exn + json" where
  "record_bucket r =
     and_then (and_then (getitem r ''s3'') (\<lambda>s. getitem s ''bucket'')) (\<lambda>b. getitem b ''name'')"

definition record_key :: "json \<Rightarrow> exn + json" where
  "record_key r =
     and_then (and_then (getitem r ''s3'') (\<lambda>s. getitem s ''object'')) (\<lambda>ob. getitem ob ''key'')"

text \<open>Line 17 and line 18.\<close>

definition event_bucket :: "json \<Rightarrow> exn + json" where
  "event_bucket event = and_then (first_record event) record_bucket"

definition event_key :: "json \<Rightarrow> exn + json" where
  "event_key event = and_then (first_record event) record_key"

text \<open>
  \<open>os.path.splitext\<close> starts with \<open>os.fspath(p)\<close>, which raises \<open>TypeError\<close> unless \<open>p\<close> is a
  string (JSON has neither bytes nor path objects).
\<close>

fun fspath :: "json \<Rightarrow> exn + string" where
  "fspath (JStr s) = Inr s"
| "fspath _ = Inl TypeError"

text \<open>
  \<open>sent_data['ResponseMetadata']['HTTPStatusCode']\<close> of line 44.
\<close>

definition status_code :: "json \<Rightarrow> exn + json" where
  "status_code sent_data =
     and_then (getitem sent_data ''ResponseMetadata'') (\<lambda>m. getitem m ''HTTPStatusCode'')"

subsection \<open>Reading an event by its shape\<close>

text \<open>
  \<open>v[k1][k2]...\<close> for a list of string keys, and the key such a chain of subscripts misses:
  \<open>missing_key v ks\<close> is the first key of \<open>ks\<close> that the dict reached so far does not have, and
  \<open>None\<close> when every key is there or when a value on the way is not a dict.
\<close>

fun lookup_path :: "json \<Rightarrow> string list \<Rightarrow> exn + json" where
  "lookup_path v [] = Inr v"
| "lookup_path v (k # ks) = and_then (getitem v k) (\<lambda>v'. lookup_path v' ks)"

fun missing_key :: "json \<Rightarrow> string list \<Rightarrow> string option" where
  "missing_key v [] = None"
| "missing_key (JObj kvs) (k # ks) =
     (case map_of kvs k of None \<Rightarrow> Some k | Some v \<Rightarrow> missing_key v ks)"
| "missing_key _ (k # ks) = None"

text \<open>
  \<open>wrong_type v ks\<close>: the chain of subscripts reaches, with keys still to read, a value that
  is not a dict.
\<close>

fun wrong_type :: "json \<Rightarrow> string list \<Rightarrow> bool" where
  "wrong_type v [] = False"
| "wrong_type (JObj kvs) (k # ks) =
     (case map_of kvs k of None \<Rightarrow> False | Some v \<Rightarrow> wrong_type v ks)"
| "wrong_type _ (k # ks) = True"

subsection \<open>The libraries the handler calls\<close>

type_synonym bytes = "nat list"

text \<open>
  boto3 and Pillow, as the handler uses them. \<open>'st\<close> is the state of the storage service and
  \<open>'img\<close> a decoded image. \<open>get_object\<close> covers \<open>get_object(...)['Body'].read()\<close>; it reads
  the service and leaves it as it is. \<open>put_object\<close> returns the response dict, or raises,
  and the state of the service after the call. \<open>image_thumbnail\<close> is \<open>img.thumbnail(size)\<close>,
  which changes the image in place: it returns the changed image. \<open>image_save\<close> is
  \<open>img.save(buffer, format)\<close> and returns the bytes written to the buffer.
\<close>

record ('st, 'img) services =
  get_object :: "'st \<Rightarrow> string \<Rightarrow> string \<Rightarrow> exn + bytes"
  put_object :: "'st \<Rightarrow> string \<Rightarrow> string \<Rightarrow> bytes \<Rightarrow> (exn + json) \<times> 'st"
  image_open :: "bytes \<Rightarrow> exn + 'img"
  image_size :: "'img \<Rightarrow> nat \<times> nat"
  image_thumbnail :: "'img \<Rightarrow> nat \<times> nat \<Rightarrow> exn + 'img"
  image_save :: "'img \<Rightarrow> string \<Rightarrow> exn + bytes"

subsection \<open>Effects and outcomes\<close>

text \<open>
  The invocation context is only printed (line 14): it is modelled by its printed form.
\<close>

type_synonym lambda_context = string

text \<open>The five \<open>logger.info\<close> lines (13, 14, 25, 30, 34), by what they print.\<close>

datatype log_line =
    LogEvent json
  | LogContext lambda_context
  | LogNames json string string string
  | LogSizeBefore "nat \<times> nat"
  | LogSizeAfter "nat \<times> nat"

text \<open>
  What an invocation does besides returning: log lines, the read of an environment
  variable, and the calls of the two client methods with their arguments.
\<close>

datatype effect =
    Log log_line
  | EnvRead string
  | GetObjectCall json string
  | PutObjectCall string string bytes

text \<open>
  The outcome of an invocation: the value returned or the exception raised, the state of
  the storage service afterwards, and the effects in the order they happened.
\<close>

record 'st outcome =
  result :: "exn + json"
  store :: "'st"
  trace :: "effect list"

definition raise :: "exn \<Rightarrow> 'st \<Rightarrow> 'st outcome" where
  "raise e st = \<lparr>result = Inl e, store = st, trace = []\<rparr>"

definition emit :: "effect list \<Rightarrow> 'st outcome \<Rightarrow> 'st outcome" where
  "emit es out = out\<lparr>trace := es @ trace out\<rparr>"

subsection \<open>The handler\<close>

text \<open>
  \<open>lambda_handler\<close>, line by line. Every \<open>Inl\<close> branch is an exception that nothing catches.
  Before it validates the parameters and sends a request, boto3 matches the bucket name
  against a regular expression: a bucket that is not a string raises \<open>TypeError\<close> there (the
  key is a string by then, \<open>splitext\<close> has accepted it). The message of line 45 is
  \<open>'Failed to upload image {} to bucket {}'.format(key, bucket)\<close>.
\<close>

definition lambda_handler ::
  "('st, 'img) services \<Rightarrow> (string \<rightharpoonup> string) \<Rightarrow> 'st \<Rightarrow> json \<Rightarrow> lambda_context \<Rightarrow> 'st outcome" where
  "lambda_handler sv environ st event context =
     emit [Log (LogEvent event), Log (LogContext context)]
     (case event_bucket event of
        Inl e \<Rightarrow> raise e st
      | Inr bucket \<Rightarrow>
     (case event_key event of
        Inl e \<Rightarrow> raise e st
      | Inr key \<Rightarrow>
     emit [EnvRead ''DEST_BUCKET'']
     (case environ ''DEST_BUCKET'' of
        None \<Rightarrow> raise (KeyError ''DEST_BUCKET'') st
      | Some thumbnail_bucket \<Rightarrow>
     (case fspath key of
        Inl e \<Rightarrow> raise e st
      | Inr key_s \<Rightarrow>
     emit [Log (LogNames bucket key_s thumbnail_bucket (thumbnail_key key_s)),
           GetObjectCall bucket key_s]
     (case bucket of
        JStr bucket_s \<Rightarrow>
     (case get_object sv st bucket_s key_s of
        Inl e \<Rightarrow> raise e st
      | Inr file_byte_string \<Rightarrow>
     (case image_open sv file_byte_string of
        Inl e \<Rightarrow> raise e st
      | Inr img \<Rightarrow>
     emit [Log (LogSizeBefore (image_size sv img))]
     (case image_thumbnail sv img (500, 500) of
        Inl e \<Rightarrow> raise e st
      | Inr img' \<Rightarrow>
     emit [Log (LogSizeAfter (image_size sv img'))]
     (case image_save sv img' ''JPEG'' of
        Inl e \<Rightarrow> raise e st
      | Inr buffer \<Rightarrow>
     emit [PutObjectCall thumbnail_bucket (thumbnail_key key_s) buffer]
     (case put_object sv st thumbnail_bucket (thumbnail_key key_s) buffer of
        (Inl e, st') \<Rightarrow> raise e st'
      | (Inr sent_data, st') \<Rightarrow>
     (case status_code sent_data of
        Inl e \<Rightarrow> raise e st'
      | Inr code \<Rightarrow>
        if code \<noteq> JNum 200
        then raise (Exception (''Failed to upload image '' @ key_s @ '' to bucket '' @ bucket_s)) st'
        else \<lparr>result = Inr event, store = st', trace = []\<rparr>))))))
      | _ \<Rightarrow> raise TypeError st)))))"

text \<open>
  Lines 44 to 47 as a function of what \<open>put_object\<close> returned or raised: the value the
  handler returns, or the exception it ends with.
\<close>

definition upload_result :: "json \<Rightarrow> string \<Rightarrow> string \<Rightarrow> exn + json \<Rightarrow> exn + json" where
  "upload_result event bucket_s key_s r =
     (case r of
        Inl e \<Rightarrow> Inl e
      | Inr sent_data \<Rightarrow>
          (case status_code sent_data of
             Inl e \<Rightarrow> Inl e
           | Inr code \<Rightarrow>
               if code \<noteq> JNum 200
               then Inl (Exception (''Failed to upload image '' @ key_s @ '' to bucket '' @ bucket_s))
               else Inr event))"

subsection \<open>Reading a trace\<close>

fun is_storage_call :: "effect \<Rightarrow> bool" where
  "is_storage_call (GetObjectCall b k) = True"
| "is_storage_call (PutObjectCall b k d) = True"
| "is_storage_call _ = False"

fun is_put :: "effect \<Rightarrow> bool" where
  "is_put (PutObjectCall b k d) = True"
| "is_put _ = False"

fun is_env_read :: "effect \<Rightarrow> bool" where
  "is_env_read (EnvRead v) = True"
| "is_env_read _ = False"

definition storage_calls :: "effect list \<Rightarrow> effect list" where
  "storage_calls t = filter is_storage_call t"

definition puts :: "effect list \<Rightarrow> effect list" where
  "puts t = filter is_put t"

definition env_reads :: "effect list \<Rightarrow> effect list" where
  "env_reads t = filter is_env_read t"

text \<open>The exception an invocation ended with, if any.\<close>

definition raised :: "'st outcome \<Rightarrow> exn option" where
  "raised out = (case result out of Inl e \<Rightarrow> Some e | Inr v \<Rightarrow> None)"

text \<open>
  An invocation that ended with the exception \<open>e\<close> before it read the environment and
  before it called the storage service, which it left in the state \<open>st\<close>.
\<close>

definition failed_early :: "'st outcome \<Rightarrow> exn \<Rightarrow> 'st \<Rightarrow> bool" where
  "failed_early out e st \<longleftrightarrow>
     result out = Inl e \<and> env_reads (trace out) = [] \<and> storage_calls (trace out) = [] \<and>
     store out = st"

subsection \<open>A storage service and an image library to run the handler on\<close>

text \<open>
  Modelled from the spec: the storage service is an external collaborator with no code in
  the repository. The spec (sections 4.1 and 6) describes it as an opaque key/bytes store
  with \<open>get_object(bucket, key) -> bytes\<close> and \<open>put_object(bucket, key, body) -> {status_code}\<close>,
  where a put fully overwrites any existing object at that key, with no conditional write
  and no collision detection, and a read of a missing object fails. Here a service is a map
  from bucket names to the objects of the bucket; a call on a bucket that does not exist
  fails.
\<close>

type_synonym s3 = "string \<rightharpoonup> (string \<rightharpoonup> bytes)"

definition ok_response :: json where
  "ok_response = JObj [(''ResponseMetadata'', JObj [(''HTTPStatusCode'', JNum 200)])]"

definition s3_get_object :: "s3 \<Rightarrow> string \<Rightarrow> string \<Rightarrow> exn + bytes" where
  "s3_get_object st b k =
     (case st b of
        None \<Rightarrow> Inl (LibraryError ''NoSuchBucket'')
      | Some objs \<Rightarrow>
          (case objs k of None \<Rightarrow> Inl (LibraryError ''NoSuchKey'') | Some d \<Rightarrow> Inr d))"

definition s3_put_object :: "s3 \<Rightarrow> string \<Rightarrow> string \<Rightarrow> bytes \<Rightarrow> (exn + json) \<times> s3" where
  "s3_put_object st b k d =
     (case st b of
        None \<Rightarrow> (Inl (LibraryError ''NoSuchBucket''), st)
      | Some objs \<Rightarrow> (Inr ok_response, st(b \<mapsto> objs(k \<mapsto> d))))"

text \<open>The object stored under a key of a bucket, if there is one.\<close>

definition object_at :: "s3 \<Rightarrow> string \<Rightarrow> string \<Rightarrow> bytes option" where
  "object_at st b k = (case st b of None \<Rightarrow> None | Some objs \<Rightarrow> objs k)"

text \<open>
  Modelled from the spec: \<open>Image.thumbnail\<close> is Pillow's and has no code in the repository.
  The spec (section 4.1, step 4, and section 8) says that the resize shrinks the image so
  that neither dimension exceeds the bound while preserving the aspect ratio, that an image
  already within the bound is left unchanged and never upscaled, and that a 1000 by 500
  image becomes 500 by 250, the aspect ratio preserved within rounding. \<open>thumbnail_size\<close> is
  the size such a resize gives, with the rounding written out the way Pillow computes the
  size: the dimension that the bound limits becomes the bound, the other one is the
  exactly proportional value rounded down or up, whichever keeps the aspect ratio closer
  (down when both are as close), and is at least 1. The arithmetic here is exact, where
  Pillow computes in floating point: \<open>round_aspect p q\<close> rounds the fraction \<open>p / q\<close>, and the
  two aspect ratios are compared by cross-multiplication.
\<close>

definition round_aspect :: "nat \<Rightarrow> nat \<Rightarrow> (nat \<Rightarrow> nat \<Rightarrow> bool) \<Rightarrow> nat" where
  "round_aspect p q key_le =
     (let lo = p div q;
          hi = (p + q - 1) div q
      in max (if key_le lo hi then lo else hi) 1)"

definition thumbnail_size :: "nat \<times> nat \<Rightarrow> nat \<times> nat \<Rightarrow> nat \<times> nat" where
  "thumbnail_size sz provided_size =
     (case (sz, provided_size) of
        ((width, height), (x, y)) \<Rightarrow>
          if x \<ge> width \<and> y \<ge> height then (width, height)
          else if x * height \<ge> width * y
          then (round_aspect (y * width) height
                  (\<lambda>m n. \<bar>int (width * y) - int (m * height)\<bar>
                            \<le> \<bar>int (width * y) - int (n * height)\<bar>), y)
          else (x, round_aspect (x * height) width
                  (\<lambda>m n. m = 0 \<or>
                     \<bar>int (width * m) - int (x * height)\<bar> * int n
                       \<le> \<bar>int (width * n) - int (x * height)\<bar> * int m)))"

text \<open>
  An image library follows the size rule when every image that \<open>thumbnail\<close> returns has the
  size the rule gives for the image it was called on.
\<close>

definition follows_size_rule :: "('st, 'img) services \<Rightarrow> bool" where
  "follows_size_rule sv \<longleftrightarrow>
     (\<forall>img bound img'. image_thumbnail sv img bound = Inr img' \<longrightarrow>
        image_size sv img' = thumbnail_size (image_size sv img) bound)"

text \<open>
  A stand-in for the rest of Pillow, used only to run the handler on concrete inputs: an
  image is its size, the file of a \<open>w\<close> by \<open>h\<close> image is the two numbers \<open>[w, h]\<close>, and
  \<open>thumbnail\<close> gives the image of the size the rule above gives.
\<close>

definition toy_open :: "bytes \<Rightarrow> exn + nat \<times> nat" where
  "toy_open d = (case d of [w, h] \<Rightarrow> Inr (w, h) | _ \<Rightarrow> Inl (LibraryError ''UnidentifiedImageError''))"

definition toy_services :: "(s3, nat \<times> nat) services" where
  "toy_services =
     \<lparr>get_object = s3_get_object,
      put_object = s3_put_object,
      image_open = toy_open,
      image_size = (\<lambda>img. img),
      image_thumbnail = (\<lambda>img bound. Inr (thumbnail_size img bound)),
      image_save = (\<lambda>img format. Inr [fst img, snd img])\<rparr>"

text \<open>A storage service that answers every put with status 500 and stores nothing.\<close>

definition failing_put :: "s3 \<Rightarrow> string \<Rightarrow> string \<Rightarrow> bytes \<Rightarrow> (exn + json) \<times> s3" where
  "failing_put st b k d =
     (Inr (JObj [(''ResponseMetadata'', JObj [(''HTTPStatusCode'', JNum 500)])]), st)"

text \<open>The stand-in libraries over a service whose every put fails with status 500.\<close>

definition failing_services :: "(s3, nat \<times> nat) services" where
  "failing_services = toy_services\<lparr>put_object := failing_put\<rparr>"

subsection \<open>Concrete events, environments and service states\<close>

text \<open>An S3 notification for the object \<open>key\<close> of the bucket \<open>name\<close>, with further records.\<close>

definition s3_record :: "string \<Rightarrow> string \<Rightarrow> json" where
  "s3_record name key =
     JObj [(''eventName'', JStr ''ObjectCreated:Put''),
           (''s3'', JObj [(''bucket'', JObj [(''name'', JStr name)]),
                          (''object'', JObj [(''key'', JStr key)])])]"

definition s3_event :: "string \<Rightarrow> string \<Rightarrow> json list \<Rightarrow> json" where
  "s3_event name key others = JObj [(''Records'', JList (s3_record name key # others))]"

text \<open>Concrete inputs: an environment with and without the variable, and a service state.\<close>

definition demo_environ :: "string \<rightharpoonup> string" where
  "demo_environ = [''DEST_BUCKET'' \<mapsto> ''dst'']"

definition unset_environ :: "string \<rightharpoonup> string" where
  "unset_environ = Map.empty"

definition demo_store :: s3 where
  "demo_store = [''src'' \<mapsto> [''img.jpg'' \<mapsto> [800, 600]], ''dst'' \<mapsto> Map.empty]"

definition nowhere_environ :: "string \<rightharpoonup> string" where
  "nowhere_environ = [''DEST_BUCKET'' \<mapsto> ''nowhere'']"

definition archive_environ :: "string \<rightharpoonup> string" where
  "archive_environ = [''DEST_BUCKET'' \<mapsto> ''archive'']"

definition small_store :: s3 where
  "small_store = [''src'' \<mapsto> [''img.jpg'' \<mapsto> [100, 50]], ''archive'' \<mapsto> Map.empty]"

definition wide_store :: s3 where
  "wide_store = [''src'' \<mapsto> [''img.jpg'' \<mapsto> [1000, 500]], ''dst'' \<mapsto> Map.empty]"

definition cat_store :: s3 where
  "cat_store = [''up'' \<mapsto> [''photos/cat.jpeg'' \<mapsto> [900, 400]], ''dst'' \<mapsto> Map.empty]"

definition png_store :: s3 where
  "png_store = [''src'' \<mapsto> [''art/logo.png'' \<mapsto> [640, 480]], ''dst'' \<mapsto> Map.empty]"

text \<open>Two events that differ only after the first record, and an event without a list.\<close>

definition other_record :: json where
  "other_record = s3_record ''elsewhere'' ''other.gif''"

definition null_records_event :: json where
  "null_records_event = JObj [(''Records'', JNull)]"

text \<open>
  Events with a bucket given as a string instead of an object, and without \<open>s3.object\<close>.
\<close>

definition string_bucket_event :: json where
  "string_bucket_event =
     JObj [(''Records'', JList [JObj [(''s3'', JObj [(''bucket'', JStr ''src''),
                                                    (''object'', JObj [(''key'', JStr ''img.jpg'')])])]])]"

definition no_object_event :: json where
  "no_object_event =
     JObj [(''Records'', JList [JObj [(''s3'', JObj [(''bucket'', JObj [(''name'', JStr ''src'')])])]])]"

subsection \<open>The condition under which \<open>splitext\<close> splits\<close>

text \<open>
  \<open>splitext\<close> splits exactly when the last dot comes after the last slash and some character
  between the two is not a dot.
\<close>

definition has_ext :: "string \<Rightarrow> bool" where
  "has_ext p \<longleftrightarrow> rfind p sep < rfind p extsep \<and>
     (\<exists>j. rfind p sep < j \<and> j < rfind p extsep \<and> p ! nat j \<noteq> extsep)"

subsection \<open>Facts about \<open>rfind\<close>, slices and \<open>splitext\<close>\<close>

lemma rfind_bounds: "- 1 \<le> rfind p c \<and> rfind p c < int (length p)"
  by (induction p) (auto simp: Let_def)

lemma rfind_neg_iff: "rfind p c < 0 \<longleftrightarrow> c \<notin> set p"
  by (induction p) (auto simp: Let_def)

lemma rfind_notin: "c \<notin> set p \<Longrightarrow> rfind p c = - 1"
  using rfind_neg_iff [of p c] rfind_bounds [of p c] by linarith

lemma rfind_append:
  "rfind (xs @ ys) c = (if c \<in> set ys then int (length xs) + rfind ys c else rfind xs c)"
proof (induction xs)
  case Nil
  then show ?case by (simp add: rfind_notin)
next
  case (Cons x xs)
  have "c \<in> set ys \<Longrightarrow> 0 \<le> rfind ys c"
    using rfind_neg_iff [of ys c] by linarith
  with Cons show ?case by (auto simp: Let_def)
qed

lemma rfind_nth: "0 \<le> rfind p c \<Longrightarrow> p ! nat (rfind p c) = c"
proof (induction p)
  case Nil
  then show ?case by simp
next
  case (Cons x xs)
  show ?case
  proof (cases "0 \<le> rfind xs c")
    case True
    then have "nat (rfind xs c + 1) = Suc (nat (rfind xs c))" by simp
    with True Cons.IH show ?thesis by (simp add: Let_def)
  next
    case False
    with Cons.prems show ?thesis by (simp add: Let_def split: if_splits)
  qed
qed

lemma rfind_is_last: "c \<notin> set (drop (nat (rfind p c + 1)) p)"
proof (induction p)
  case Nil
  then show ?case by simp
next
  case (Cons x xs)
  show ?case
  proof (cases "0 \<le> rfind xs c")
    case True
    then have "nat (rfind xs c + 1 + 1) = Suc (nat (rfind xs c + 1))" by simp
    with True Cons.IH show ?thesis by (simp add: Let_def)
  next
    case False
    then have "c \<notin> set xs" using rfind_neg_iff [of xs c] by simp
    with False show ?thesis by (simp add: Let_def)
  qed
qed

lemma slice_one:
  assumes "0 \<le> j" and "j < int (length p)"
  shows "slice p (Some j) (Some (j + 1)) = [p ! nat j]"
proof -
  from assms have n: "nat j < length p" by simp
  then have a: "clamp_index (length p) j = nat j"
    using assms by (simp add: clamp_index_def)
  have b: "clamp_index (length p) (j + 1) = Suc (nat j)"
    using assms n by (simp add: clamp_index_def nat_add_distrib)
  have "take (Suc 0) (drop (nat j) p) = [p ! nat j]"
    using n by (simp add: take_Suc_conv_app_nth)
  then show ?thesis by (simp add: slice_def a b)
qed

lemma slice_upto: "0 \<le> d \<Longrightarrow> slice p None (Some d) = take (nat d) p"
  by (simp add: slice_def clamp_index_def Let_def min_def)

lemma slice_from: "0 \<le> d \<Longrightarrow> slice p (Some d) None = drop (nat d) p"
  by (simp add: slice_def clamp_index_def Let_def min_def)

lemma skip_leading_dots_eq:
  "0 \<le> f \<Longrightarrow> d < int (length p) \<Longrightarrow>
   skip_leading_dots p d f =
     (if \<exists>j. f \<le> j \<and> j < d \<and> p ! nat j \<noteq> extsep
      then (take (nat d) p, drop (nat d) p) else (p, []))"
proof (induction p d f rule: skip_leading_dots.induct)
  case (1 p dotIndex filenameIndex)
  show ?case
  proof (cases "filenameIndex < dotIndex")
    case False
    then have "\<not> (\<exists>j. filenameIndex \<le> j \<and> j < dotIndex \<and> p ! nat j \<noteq> extsep)" by auto
    moreover have "slice p None (Some 0) = []" by (simp add: slice_upto)
    ultimately show ?thesis using False by (subst skip_leading_dots.simps) auto
  next
    case True
    with "1.prems" have one:
      "slice p (Some filenameIndex) (Some (filenameIndex + 1)) = [p ! nat filenameIndex]"
      by (simp add: slice_one)
    show ?thesis
    proof (cases "p ! nat filenameIndex = extsep")
      case False
      with True have "\<exists>j. filenameIndex \<le> j \<and> j < dotIndex \<and> p ! nat j \<noteq> extsep"
        by auto
      moreover have "0 \<le> dotIndex" using True "1.prems" by simp
      ultimately show ?thesis
        using True False one by (simp add: slice_upto slice_from)
    next
      case dot: True
      have ih: "skip_leading_dots p dotIndex (filenameIndex + 1) =
        (if \<exists>j. filenameIndex + 1 \<le> j \<and> j < dotIndex \<and> p ! nat j \<noteq> extsep
         then (take (nat dotIndex) p, drop (nat dotIndex) p) else (p, []))"
        using "1.IH" True one dot "1.prems" by simp
      have "(\<exists>j. filenameIndex + 1 \<le> j \<and> j < dotIndex \<and> p ! nat j \<noteq> extsep) \<longleftrightarrow>
            (\<exists>j. filenameIndex \<le> j \<and> j < dotIndex \<and> p ! nat j \<noteq> extsep)"
      proof
        assume "\<exists>j. filenameIndex + 1 \<le> j \<and> j < dotIndex \<and> p ! nat j \<noteq> extsep"
        then show "\<exists>j. filenameIndex \<le> j \<and> j < dotIndex \<and> p ! nat j \<noteq> extsep"
          by (metis add_le_imp_le_left add.commute le_add_same_cancel1 order_trans zero_le_one zle_add1_eq_le less_le)
      next
        assume "\<exists>j. filenameIndex \<le> j \<and> j < dotIndex \<and> p ! nat j \<noteq> extsep"
        then obtain j where j: "filenameIndex \<le> j" "j < dotIndex" "p ! nat j \<noteq> extsep" by blast
        with dot have "j \<noteq> filenameIndex" by auto
        with j have "filenameIndex + 1 \<le> j" by simp
        with j show "\<exists>j. filenameIndex + 1 \<le> j \<and> j < dotIndex \<and> p ! nat j \<noteq> extsep" by blast
      qed
      with ih True one dot show ?thesis
        by (subst skip_leading_dots.simps) simp
    qed
  qed
qed

lemma splitext_eq:
  "splitext p =
     (if has_ext p then (take (nat (rfind p extsep)) p, drop (nat (rfind p extsep)) p)
      else (p, []))"
proof -
  have s: "0 \<le> rfind p sep + 1" using rfind_bounds [of p sep] by simp
  have d: "rfind p extsep < int (length p)" using rfind_bounds [of p extsep] by simp
  have e: "(\<exists>j. rfind p sep + 1 \<le> j \<and> j < rfind p extsep \<and> p ! nat j \<noteq> extsep) \<longleftrightarrow>
    (\<exists>j. rfind p sep < j \<and> j < rfind p extsep \<and> p ! nat j \<noteq> extsep)"
  proof -
    have "\<And>j. (rfind p sep + 1 \<le> j) = (rfind p sep < j)" by linarith
    then show ?thesis by simp
  qed
  show ?thesis
    unfolding splitext_def Let_def has_ext_def skip_leading_dots_eq [OF s d] e
    by (auto simp: slice_upto)
qed


lemma has_ext_dot: "has_ext p \<Longrightarrow> 0 \<le> rfind p extsep"
  using rfind_bounds [of p sep] by (simp add: has_ext_def)

lemma splitext_concat: "fst (splitext p) @ snd (splitext p) = p"
  by (simp add: splitext_eq)

lemma splitext_no_ext: "snd (splitext p) = [] \<Longrightarrow> fst (splitext p) = p"
  using splitext_concat [of p] by simp

lemma splitext_ext_shape:
  assumes "snd (splitext p) \<noteq> []"
  shows "hd (snd (splitext p)) = extsep \<and> extsep \<notin> set (tl (snd (splitext p)))
    \<and> sep \<notin> set (snd (splitext p))"
proof -
  let ?d = "rfind p extsep"
  from assms have h: "has_ext p" by (auto simp: splitext_eq split: if_splits)
  then have d0: "0 \<le> ?d" by (rule has_ext_dot)
  have dn: "nat ?d < length p" using rfind_bounds [of p extsep] d0 by simp
  have e: "snd (splitext p) = drop (nat ?d) p" using h by (simp add: splitext_eq)
  have "hd (drop (nat ?d) p) = extsep"
    using dn rfind_nth [OF d0] by (simp add: hd_drop_conv_nth)
  moreover have "extsep \<notin> set (tl (drop (nat ?d) p))"
  proof -
    have "nat (?d + 1) = Suc (nat ?d)" using d0 by simp
    then show ?thesis using rfind_is_last [of extsep p] by (simp add: drop_Suc tl_drop)
  qed
  moreover have "sep \<notin> set (drop (nat ?d) p)"
  proof -
    have "nat (rfind p sep + 1) \<le> nat ?d" using h unfolding has_ext_def by linarith
    then have "set (drop (nat ?d) p) \<subseteq> set (drop (nat (rfind p sep + 1)) p)"
      by (rule set_drop_subset_set_drop)
    then show ?thesis using rfind_is_last [of sep p] by blast
  qed
  ultimately show ?thesis by (simp add: e)
qed

lemma rfind_head: "c \<notin> set r \<Longrightarrow> rfind (c # r) c = 0"
  by (simp add: rfind_notin)

lemma splitext_thumbnail_key:
  "splitext (thumbnail_key p) = (fst (splitext p) @ ''_thumbnail'', snd (splitext p))"
proof (cases "has_ext p")
  case True
  let ?n = "fst (splitext p)" and ?e = "snd (splitext p)"
  let ?q = "(?n @ ''_thumbnail'') @ ?e"
  have q: "thumbnail_key p = ?q" by (simp add: thumbnail_key_def split: prod.splits)
  have ne: "?e \<noteq> []" using True has_ext_dot [OF True] rfind_bounds [of p extsep]
    by (simp add: splitext_eq)
  from splitext_ext_shape [OF ne] obtain r where
    e: "?e = extsep # r" and r: "extsep \<notin> set r" and s: "sep \<notin> set ?e"
    using ne by (cases ?e) auto
  have n: "?n = take (nat (rfind p extsep)) p" using True by (simp add: splitext_eq)
  have pn: "p = ?n @ ?e" by (simp add: splitext_concat)
  have e0: "rfind ?e extsep = 0" using rfind_head [OF r] by (simp only: e)
  have "extsep \<in> set ?e" by (simp add: e)
  then have "rfind ?q extsep = int (length (?n @ ''_thumbnail'')) + rfind ?e extsep"
    by (simp only: rfind_append if_True)
  then have dq: "rfind ?q extsep = int (length ?n) + 10" by (simp add: e0)
  have "rfind ?q sep = rfind (?n @ ''_thumbnail'') sep"
    using s by (simp only: rfind_append if_False)
  also have "\<dots> = rfind ?n sep"
    by (simp only: rfind_append) (simp add: sep_def)
  finally have sq: "rfind ?q sep < int (length ?n)" using rfind_bounds [of ?n sep] by simp
  have "?q ! length ?n \<noteq> extsep" by (simp add: nth_append extsep_def)
  then have "\<exists>j. rfind ?q sep < j \<and> j < rfind ?q extsep \<and> ?q ! nat j \<noteq> extsep"
    using sq dq by (intro exI [of _ "int (length ?n)"]) simp
  then have hq: "has_ext ?q" using sq dq by (simp add: has_ext_def)
  have "nat (rfind ?q extsep) = length (?n @ ''_thumbnail'')" using dq by simp
  then have "splitext ?q = (?n @ ''_thumbnail'', ?e)"
    using hq by (simp only: splitext_eq if_True take_append drop_append) simp
  then show ?thesis by (simp only: q)
next
  case False
  let ?q = "p @ ''_thumbnail''"
  have sp: "splitext p = (p, [])" using False by (simp add: splitext_eq)
  then have q: "thumbnail_key p = ?q" by (simp add: thumbnail_key_def)
  have dq: "rfind ?q extsep = rfind p extsep"
    by (simp add: rfind_append extsep_def del: rfind.simps)
  have sq: "rfind ?q sep = rfind p sep"
    by (simp add: rfind_append sep_def del: rfind.simps)
  have "\<And>j. 0 \<le> j \<Longrightarrow> j < rfind p extsep \<Longrightarrow> ?q ! nat j = p ! nat j"
  proof -
    fix j :: int assume "0 \<le> j" "j < rfind p extsep"
    then have "nat j < length p" using rfind_bounds [of p extsep] by simp
    then show "?q ! nat j = p ! nat j" by (simp add: nth_append)
  qed
  moreover have "\<And>j. rfind p sep < j \<Longrightarrow> 0 \<le> j"
    using rfind_bounds [of p sep] by simp
  ultimately have "has_ext ?q = has_ext p"
    unfolding has_ext_def dq sq by (metis (no_types, lifting))
  with False have "splitext ?q = (?q, [])" by (simp add: splitext_eq)
  then show ?thesis by (simp add: q sp)
qed

subsection \<open>Facts about the handler\<close>

lemma fspath_Inr: "fspath key = Inr k \<longleftrightarrow> key = JStr k"
  by (cases key) auto

lemmas handler_splits =
  sum.splits option.splits json.splits prod.splits if_splits

lemma handler_put_call:
  assumes "PutObjectCall tb tk body \<in> set (trace (lambda_handler sv environ st event ctx))"
  shows "\<exists>b k data img img'.
    event_bucket event = Inr (JStr b) \<and> event_key event = Inr (JStr k) \<and>
    environ ''DEST_BUCKET'' = Some tb \<and> tk = thumbnail_key k \<and>
    get_object sv st b k = Inr data \<and> image_open sv data = Inr img \<and>
    image_thumbnail sv img (500, 500) = Inr img' \<and> image_save sv img' ''JPEG'' = Inr body"
  using assms
  by (auto simp: lambda_handler_def emit_def raise_def fspath_Inr split: handler_splits)

lemma handler_upload:
  assumes "event_bucket event = Inr (JStr b)" and "event_key event = Inr (JStr k)"
    and "environ ''DEST_BUCKET'' = Some tb"
    and "get_object sv st b k = Inr data" and "image_open sv data = Inr img"
    and "image_thumbnail sv img (500, 500) = Inr img'"
    and "image_save sv img' ''JPEG'' = Inr body"
  shows "lambda_handler sv environ st event ctx =
    \<lparr>result = upload_result event b k (fst (put_object sv st tb (thumbnail_key k) body)),
     store = snd (put_object sv st tb (thumbnail_key k) body),
     trace = [Log (LogEvent event), Log (LogContext ctx), EnvRead ''DEST_BUCKET'',
       Log (LogNames (JStr b) k tb (thumbnail_key k)), GetObjectCall (JStr b) k,
       Log (LogSizeBefore (image_size sv img)), Log (LogSizeAfter (image_size sv img')),
       PutObjectCall tb (thumbnail_key k) body]\<rparr>"
  using assms
  by (simp add: lambda_handler_def emit_def raise_def upload_result_def split: handler_splits)

lemma handler_no_put:
  assumes "puts (trace (lambda_handler sv environ st event ctx)) = []"
  shows "store (lambda_handler sv environ st event ctx) = st \<and>
    (\<exists>e. result (lambda_handler sv environ st event ctx) = Inl e)"
  using assms
  by (auto simp: lambda_handler_def emit_def raise_def puts_def split: handler_splits)

lemma handler_some_put:
  assumes "puts (trace (lambda_handler sv environ st event ctx)) \<noteq> []"
  shows "\<exists>tb tk body. PutObjectCall tb tk body \<in> set (trace (lambda_handler sv environ st event ctx))"
proof -
  from assms obtain x where x: "x \<in> set (trace (lambda_handler sv environ st event ctx))" "is_put x"
    unfolding puts_def by (metis filter_False)
  from x(2) obtain tb tk body where "x = PutObjectCall tb tk body" by (cases x) auto
  with x(1) show ?thesis by blast
qed

lemma handler_returns:
  assumes "result (lambda_handler sv environ st event ctx) = Inr v"
  shows "v = event \<and> puts (trace (lambda_handler sv environ st event ctx)) \<noteq> []"
  using assms
  by (auto simp: lambda_handler_def emit_def raise_def puts_def split: handler_splits)

lemma upload_result_Inr:
  "upload_result event b k r = Inr v \<longleftrightarrow>
     v = event \<and> (\<exists>sent_data. r = Inr sent_data \<and> status_code sent_data = Inr (JNum 200))"
  by (auto simp: upload_result_def split: sum.splits)

lemma thumbnail_key_eq:
  "thumbnail_key key = fst (splitext key) @ ''_thumbnail'' @ snd (splitext key)"
  by (simp add: thumbnail_key_def split: prod.splits)

lemma length_thumbnail_key: "length (thumbnail_key key) = length key + 10"
proof -
  have "length (fst (splitext key) @ snd (splitext key)) = length key"
    by (simp only: splitext_concat)
  then show ?thesis by (simp add: thumbnail_key_eq)
qed

lemma handler_early_failure:
  assumes "event_bucket event = Inl e \<or> (\<exists>b. event_bucket event = Inr b \<and> event_key event = Inl e)"
  shows "lambda_handler sv environ st event ctx =
    \<lparr>result = Inl e, store = st, trace = [Log (LogEvent event), Log (LogContext ctx)]\<rparr>"
  using assms by (auto simp: lambda_handler_def emit_def raise_def)

lemma handler_unset_variable:
  assumes "event_bucket event = Inr b" and "event_key event = Inr k"
    and "environ ''DEST_BUCKET'' = None"
  shows "lambda_handler sv environ st event ctx =
    \<lparr>result = Inl (KeyError ''DEST_BUCKET''), store = st,
     trace = [Log (LogEvent event), Log (LogContext ctx), EnvRead ''DEST_BUCKET'']\<rparr>"
  using assms by (simp add: lambda_handler_def emit_def raise_def)

lemma handler_success:
  assumes "result (lambda_handler sv environ st event ctx) = Inr v"
  shows "\<exists>b k tb data img img' body sent_data.
    event_bucket event = Inr (JStr b) \<and> event_key event = Inr (JStr k) \<and>
    environ ''DEST_BUCKET'' = Some tb \<and>
    get_object sv st b k = Inr data \<and> image_open sv data = Inr img \<and>
    image_thumbnail sv img (500, 500) = Inr img' \<and> image_save sv img' ''JPEG'' = Inr body \<and>
    fst (put_object sv st tb (thumbnail_key k) body) = Inr sent_data \<and>
    status_code sent_data = Inr (JNum 200)"
proof -
  from handler_returns [OF assms]
  have "puts (trace (lambda_handler sv environ st event ctx)) \<noteq> []" by simp
  from handler_some_put [OF this] obtain tb tk body where
    "PutObjectCall tb tk body \<in> set (trace (lambda_handler sv environ st event ctx))"
    by blast
  from handler_put_call [OF this] obtain b k data img img' where
    s: "event_bucket event = Inr (JStr b)" "event_key event = Inr (JStr k)"
       "environ ''DEST_BUCKET'' = Some tb" "get_object sv st b k = Inr data"
       "image_open sv data = Inr img" "image_thumbnail sv img (500, 500) = Inr img'"
       "image_save sv img' ''JPEG'' = Inr body"
    by blast
  have "result (lambda_handler sv environ st event ctx) =
      upload_result event b k (fst (put_object sv st tb (thumbnail_key k) body))"
    by (simp add: handler_upload [where sv = sv and environ = environ, OF s])
  with assms obtain sent_data where
    "fst (put_object sv st tb (thumbnail_key k) body) = Inr sent_data"
    "status_code sent_data = Inr (JNum 200)"
    by (auto simp: upload_result_Inr)
  with s show ?thesis by blast
qed

lemma handler_same_names:
  assumes "event_bucket e1 = event_bucket e2" and "event_key e1 = event_key e2"
  shows "tl (trace (lambda_handler sv environ st e1 ctx)) =
      tl (trace (lambda_handler sv environ st e2 ctx)) \<and>
    store (lambda_handler sv environ st e1 ctx) = store (lambda_handler sv environ st e2 ctx) \<and>
    raised (lambda_handler sv environ st e1 ctx) = raised (lambda_handler sv environ st e2 ctx)"
  using assms
  by (simp add: lambda_handler_def emit_def raise_def raised_def split: handler_splits)

lemma first_record_list:
  "getitem event ''Records'' = Inr (JList (r # rs)) \<Longrightarrow> first_record event = Inr r"
  by (simp add: first_record_def and_then_def)

lemma and_then_Inl:
  "and_then r f = Inl e \<longleftrightarrow> r = Inl e \<or> (\<exists>v. r = Inr v \<and> f v = Inl e)"
  by (cases r) (auto simp: and_then_def)

lemma getitem_Inl: "getitem v k = Inl e \<Longrightarrow> e = KeyError k \<or> e = TypeError"
  by (cases v) (auto split: option.splits)

lemma getitem0_Inl: "getitem0 v = Inl e \<Longrightarrow> e = KeyError ''0'' \<or> e = IndexError \<or> e = TypeError"
  by (cases v) (auto split: list.splits)

lemma first_record_Inl:
  "first_record event = Inl e \<Longrightarrow> (\<exists>k. e = KeyError k) \<or> e = IndexError \<or> e = TypeError"
  unfolding first_record_def and_then_Inl
  using getitem_Inl getitem0_Inl by blast

lemma record_bucket_Inl: "record_bucket r = Inl e \<Longrightarrow> (\<exists>k. e = KeyError k) \<or> e = TypeError"
  unfolding record_bucket_def and_then_Inl
  using getitem_Inl by blast

lemma record_key_Inl: "record_key r = Inl e \<Longrightarrow> (\<exists>k. e = KeyError k) \<or> e = TypeError"
  unfolding record_key_def and_then_Inl
  using getitem_Inl by blast

lemma event_bucket_Inl:
  "event_bucket event = Inl e \<Longrightarrow> (\<exists>k. e = KeyError k) \<or> e = IndexError \<or> e = TypeError"
  unfolding event_bucket_def and_then_Inl
  using first_record_Inl record_bucket_Inl by blast

lemma event_key_Inl:
  "event_key event = Inl e \<Longrightarrow> (\<exists>k. e = KeyError k) \<or> e = IndexError \<or> e = TypeError"
  unfolding event_key_def and_then_Inl
  using first_record_Inl record_key_Inl by blast

lemma thumbnail_key_neq: "thumbnail_key k \<noteq> k"
  using length_thumbnail_key [of k] by (metis add_cancel_right_right zero_neq_numeral)

lemma status_code_ok: "status_code ok_response = Inr (JNum 200)"
  by (simp add: status_code_def ok_response_def and_then_def)

lemma s3_put_object_Inr:
  "fst (s3_put_object st b k d) = Inr r \<Longrightarrow>
   \<exists>objs. st b = Some objs \<and> s3_put_object st b k d = (Inr ok_response, st(b \<mapsto> objs(k \<mapsto> d)))"
  by (auto simp: s3_put_object_def split: option.splits)

lemma s3_get_after_put:
  assumes "st tb = Some objs" and "tk \<noteq> k"
  shows "s3_get_object (st(tb \<mapsto> objs(tk \<mapsto> d))) b k = s3_get_object st b k"
  using assms by (simp add: s3_get_object_def)

lemma missing_key_lookup:
  "missing_key v ks = Some k \<Longrightarrow> lookup_path v ks = Inl (KeyError k)"
  by (induction v ks rule: missing_key.induct) (auto simp: and_then_def split: option.splits)

lemma record_bucket_path: "record_bucket r = lookup_path r [''s3'', ''bucket'', ''name'']"
  by (simp add: record_bucket_def and_then_def split: sum.splits)

lemma record_key_path: "record_key r = lookup_path r [''s3'', ''object'', ''key'']"
  by (simp add: record_key_def and_then_def split: sum.splits)

lemma failed_early_run:
  assumes "event_bucket event = Inl e \<or> (\<exists>b. event_bucket event = Inr b \<and> event_key event = Inl e)"
  shows "failed_early (lambda_handler sv environ st event ctx) e st"
  by (simp add: handler_early_failure [OF assms] failed_early_def env_reads_def storage_calls_def)

subsection \<open>Facts about the size rule\<close>

lemma round_aspect_cases:
  "round_aspect p q k = p div q \<or> round_aspect p q k = (p + q - 1) div q \<or> round_aspect p q k = 1"
  by (auto simp: round_aspect_def Let_def max_def)

lemma round_aspect_pos: "0 < round_aspect p q k"
  by (simp add: round_aspect_def Let_def)

lemma ceil_le: "0 < q \<Longrightarrow> p \<le> b * q \<Longrightarrow> (p + q - 1) div q \<le> (b::nat)"
proof -
  assume q: "0 < q" and p: "p \<le> b * q"
  then have "p + q - 1 < (b + 1) * q" by (simp add: algebra_simps)
  then have "(p + q - 1) div q < b + 1" using q by (simp add: div_less_iff_less_mult)
  then show ?thesis by simp
qed

lemma floor_le_ceil: "0 < q \<Longrightarrow> p div q \<le> (p + q - 1) div (q::nat)"
  by (rule div_le_mono) simp

lemma round_aspect_le:
  assumes "0 < q" and "p \<le> b * q" and "1 \<le> b"
  shows "round_aspect p q k \<le> b"
proof -
  have c: "(p + q - 1) div q \<le> b" by (rule ceil_le [OF assms(1) assms(2)])
  with floor_le_ceil [OF assms(1), of p] have "p div q \<le> b" by linarith
  with c assms(3) round_aspect_cases [of p q k] show ?thesis by linarith
qed

lemma floor_near: "0 < q \<Longrightarrow> \<bar>int (p div q) * int q - int p\<bar> < int (q::nat)"
proof -
  assume q: "0 < q"
  have "p = (p div q) * q + p mod q" by simp
  then have "int p = int (p div q) * int q + int (p mod q)"
    by (metis of_nat_add of_nat_mult)
  moreover have "int (p mod q) < int q" using q by simp
  ultimately show ?thesis by simp
qed

lemma ceil_near: "0 < q \<Longrightarrow> \<bar>int ((p + q - 1) div q) * int q - int p\<bar> < int (q::nat)"
proof -
  assume q: "0 < q"
  let ?c = "(p + q - 1) div q"
  have e: "p + q - 1 = ?c * q + (p + q - 1) mod q" by simp
  have m: "(p + q - 1) mod q < q" using q by simp
  have "int (p + q - 1) = int ?c * int q + int ((p + q - 1) mod q)"
    using e by (metis of_nat_add of_nat_mult)
  moreover have "int (p + q - 1) = int p + int q - 1" using q by (simp add: of_nat_diff)
  ultimately have "int ?c * int q = int p + int q - 1 - int ((p + q - 1) mod q)" by simp
  moreover have "int ((p + q - 1) mod q) \<le> int q - 1" using m by simp
  moreover have "0 \<le> int ((p + q - 1) mod q)" by simp
  ultimately show ?thesis by linarith
qed

lemma round_aspect_near:
  assumes "0 < q" and "0 < p"
  shows "\<bar>int (round_aspect p q k) * int q - int p\<bar> < int q"
proof -
  let ?lo = "p div q" and ?hi = "(p + q - 1) div q"
  define v where "v = (if k ?lo ?hi then ?lo else ?hi)"
  have r: "round_aspect p q k = max v 1" by (simp add: round_aspect_def v_def Let_def)
  have v: "v = ?lo \<or> v = ?hi" by (simp add: v_def)
  show ?thesis
  proof (cases "v = 0")
    case False
    then have "round_aspect p q k = v" by (simp add: r max_def)
    with v floor_near [OF assms(1), of p] ceil_near [OF assms(1), of p] show ?thesis
      by auto
  next
    case True
    with v floor_le_ceil [OF assms(1), of p] have "?lo = 0" by auto
    then have "p < q" using assms(1) by (simp add: div_eq_0_iff)
    moreover have "round_aspect p q k = 1" using True by (simp add: r)
    ultimately show ?thesis using assms by simp
  qed
qed


lemma thumbnail_size_within:
  "width \<le> x \<Longrightarrow> height \<le> y \<Longrightarrow> thumbnail_size (width, height) (x, y) = (width, height)"
  by (simp add: thumbnail_size_def)

lemma thumbnail_size_wide:
  assumes "\<not> (width \<le> x \<and> height \<le> y)" and "width * y \<le> x * height"
  shows "thumbnail_size (width, height) (x, y) =
    (round_aspect (y * width) height
       (\<lambda>m n. \<bar>int (width * y) - int (m * height)\<bar> \<le> \<bar>int (width * y) - int (n * height)\<bar>), y)"
  using assms by (auto simp: thumbnail_size_def)

lemma thumbnail_size_tall:
  assumes "\<not> (width \<le> x \<and> height \<le> y)" and "\<not> width * y \<le> x * height"
  shows "thumbnail_size (width, height) (x, y) =
    (x, round_aspect (x * height) width
       (\<lambda>m n. m = 0 \<or> \<bar>int (width * m) - int (x * height)\<bar> * int n
                     \<le> \<bar>int (width * n) - int (x * height)\<bar> * int m))"
  using assms by (auto simp: thumbnail_size_def)

lemma wide_height:
  assumes "\<not> (width \<le> x \<and> height \<le> y)" and "width * y \<le> x * height" and "0 < y"
  shows "y \<le> height \<and> 0 < (height::nat)"
proof -
  have "y \<le> height"
  proof (rule ccontr)
    assume "\<not> y \<le> height"
    then have h: "height < y" by simp
    with assms(1) have w: "x < width" by simp
    have "x * height \<le> x * y" using h by simp
    also have "\<dots> < width * y" using w assms(3) by simp
    finally show False using assms(2) by simp
  qed
  with assms(3) show ?thesis by simp
qed

lemma tall_width:
  assumes "\<not> (width \<le> x \<and> height \<le> y)" and "\<not> width * y \<le> x * height"
  shows "x \<le> width \<and> 0 < (width::nat)"
proof -
  have p: "0 < width" using assms(2) by (cases width) auto
  have "x \<le> width"
  proof (rule ccontr)
    assume "\<not> x \<le> width"
    then have w: "width < x" by simp
    with assms(1) have h: "y < height" by simp
    have "width * y \<le> x * y" using w by simp
    also have "\<dots> \<le> x * height" using h by simp
    finally show False using assms(2) by simp
  qed
  with p show ?thesis by simp
qed

lemma thumbnail_size_bound:
  assumes "0 < x" and "0 < y"
  shows "fst (thumbnail_size (width, height) (x, y)) \<le> x \<and>
    snd (thumbnail_size (width, height) (x, y)) \<le> y"
proof (cases "width \<le> x \<and> height \<le> y")
  case True
  then show ?thesis by (simp add: thumbnail_size_within)
next
  case out: False
  show ?thesis
  proof (cases "width * y \<le> x * height")
    case True
    from wide_height [OF out True assms(2)] have h: "0 < height" by simp
    have "y * width \<le> x * height" using True by (simp add: mult.commute)
    from round_aspect_le [OF h this] assms(1) show ?thesis
      by (simp add: thumbnail_size_wide [OF out True])
  next
    case False
    from tall_width [OF out False] have w: "0 < width" by simp
    have "x * height \<le> y * width" using False by (simp add: mult.commute)
    from round_aspect_le [OF w this] assms(2) show ?thesis
      by (simp add: thumbnail_size_tall [OF out False])
  qed
qed

lemma thumbnail_size_no_upscale:
  assumes "0 < x" and "0 < y" and "0 < width" and "0 < height"
  shows "fst (thumbnail_size (width, height) (x, y)) \<le> width \<and>
    snd (thumbnail_size (width, height) (x, y)) \<le> height"
proof (cases "width \<le> x \<and> height \<le> y")
  case True
  then show ?thesis by (simp add: thumbnail_size_within)
next
  case out: False
  show ?thesis
  proof (cases "width * y \<le> x * height")
    case True
    from wide_height [OF out True assms(2)] have h: "y \<le> height" by simp
    then have "y * width \<le> width * height" by (simp add: mult.commute)
    from round_aspect_le [OF assms(4) this] assms(3) h show ?thesis
      by (simp add: thumbnail_size_wide [OF out True])
  next
    case False
    from tall_width [OF out False] have w: "x \<le> width" by simp
    then have "x * height \<le> height * width" by (simp add: mult.commute)
    from round_aspect_le [OF assms(3) this] assms(4) w show ?thesis
      by (simp add: thumbnail_size_tall [OF out False])
  qed
qed

lemma thumbnail_size_aspect:
  assumes "0 < x" and "0 < y" and "0 < width" and "0 < height"
    and "\<not> (width \<le> x \<and> height \<le> y)"
  shows
    "snd (thumbnail_size (width, height) (x, y)) = y \<and>
       \<bar>int (fst (thumbnail_size (width, height) (x, y))) * int height - int (y * width)\<bar> < int height
     \<or> fst (thumbnail_size (width, height) (x, y)) = x \<and>
       \<bar>int (snd (thumbnail_size (width, height) (x, y))) * int width - int (x * height)\<bar> < int width"
proof (cases "width * y \<le> x * height")
  case True
  have "0 < y * width" using assms by simp
  from round_aspect_near [OF assms(4) this] show ?thesis
    by (simp add: thumbnail_size_wide [OF assms(5) True])
next
  case False
  have "0 < x * height" using assms by simp
  from round_aspect_near [OF assms(3) this] show ?thesis
    by (simp add: thumbnail_size_tall [OF assms(5) False])
qed

lemma thumbnail_size_pos:
  assumes "0 < width" and "0 < height" and "0 < x" and "0 < y"
  shows "0 < fst (thumbnail_size (width, height) (x, y)) \<and>
    0 < snd (thumbnail_size (width, height) (x, y))"
  using assms by (simp add: thumbnail_size_def round_aspect_pos)

subsection \<open>More facts about the handler\<close>

lemma handler_sizes:
  assumes "Log (LogSizeAfter s') \<in> set (trace (lambda_handler sv environ st event ctx))"
  shows "\<exists>img img'.
    image_thumbnail sv img (500, 500) = Inr img' \<and> s' = image_size sv img' \<and>
    (\<forall>s. Log (LogSizeBefore s) \<in> set (trace (lambda_handler sv environ st event ctx)) \<longrightarrow>
       s = image_size sv img)"
  using assms
  by (auto simp: lambda_handler_def emit_def raise_def split: handler_splits) blast+

lemma toy_follows_size_rule: "follows_size_rule toy_services"
  by (simp add: follows_size_rule_def toy_services_def)

lemma handler_writes:
  "length (puts (trace (lambda_handler sv environ st event ctx))) \<le> 1 \<and>
   (puts (trace (lambda_handler sv environ st event ctx)) = [] \<longrightarrow>
      store (lambda_handler sv environ st event ctx) = st \<and>
      (\<exists>e. result (lambda_handler sv environ st event ctx) = Inl e)) \<and>
   (puts (trace (lambda_handler sv environ st event ctx)) \<noteq> [] \<longrightarrow>
      (\<exists>b k tb data img img' body.
         event_bucket event = Inr (JStr b) \<and> event_key event = Inr (JStr k) \<and>
         environ ''DEST_BUCKET'' = Some tb \<and>
         get_object sv st b k = Inr data \<and> image_open sv data = Inr img \<and>
         image_thumbnail sv img (500, 500) = Inr img' \<and>
         image_save sv img' ''JPEG'' = Inr body \<and>
         storage_calls (trace (lambda_handler sv environ st event ctx)) =
           [GetObjectCall (JStr b) k, PutObjectCall tb (thumbnail_key k) body] \<and>
         store (lambda_handler sv environ st event ctx) =
           snd (put_object sv st tb (thumbnail_key k) body))) \<and>
   (\<forall>v. result (lambda_handler sv environ st event ctx) = Inr v \<longrightarrow>
      puts (trace (lambda_handler sv environ st event ctx)) \<noteq> [])"
proof -
  let ?out = "lambda_handler sv environ st event ctx"
  have some: "puts (trace ?out) \<noteq> [] \<longrightarrow>
      length (puts (trace ?out)) \<le> 1 \<and>
      (\<exists>b k tb data img img' body.
         event_bucket event = Inr (JStr b) \<and> event_key event = Inr (JStr k) \<and>
         environ ''DEST_BUCKET'' = Some tb \<and>
         get_object sv st b k = Inr data \<and> image_open sv data = Inr img \<and>
         image_thumbnail sv img (500, 500) = Inr img' \<and>
         image_save sv img' ''JPEG'' = Inr body \<and>
         storage_calls (trace ?out) =
           [GetObjectCall (JStr b) k, PutObjectCall tb (thumbnail_key k) body] \<and>
         store ?out = snd (put_object sv st tb (thumbnail_key k) body))"
  proof
    assume "puts (trace ?out) \<noteq> []"
    from handler_some_put [OF this] obtain tb tk body where
      "PutObjectCall tb tk body \<in> set (trace ?out)" by blast
    from handler_put_call [OF this] obtain b k data img img' where
      s: "event_bucket event = Inr (JStr b)" "event_key event = Inr (JStr k)"
         "environ ''DEST_BUCKET'' = Some tb" "get_object sv st b k = Inr data"
         "image_open sv data = Inr img" "image_thumbnail sv img (500, 500) = Inr img'"
         "image_save sv img' ''JPEG'' = Inr body"
      by blast
    note run = handler_upload [where sv = sv and environ = environ, OF s, of ctx]
    have "length (puts (trace ?out)) \<le> 1" by (simp add: run puts_def)
    moreover have "storage_calls (trace ?out) =
        [GetObjectCall (JStr b) k, PutObjectCall tb (thumbnail_key k) body]"
      by (simp add: run storage_calls_def)
    moreover have "store ?out = snd (put_object sv st tb (thumbnail_key k) body)"
      by (simp add: run)
    ultimately show "length (puts (trace ?out)) \<le> 1 \<and>
      (\<exists>b k tb data img img' body.
         event_bucket event = Inr (JStr b) \<and> event_key event = Inr (JStr k) \<and>
         environ ''DEST_BUCKET'' = Some tb \<and>
         get_object sv st b k = Inr data \<and> image_open sv data = Inr img \<and>
         image_thumbnail sv img (500, 500) = Inr img' \<and>
         image_save sv img' ''JPEG'' = Inr body \<and>
         storage_calls (trace ?out) =
           [GetObjectCall (JStr b) k, PutObjectCall tb (thumbnail_key k) body] \<and>
         store ?out = snd (put_object sv st tb (thumbnail_key k) body))"
      using s by blast
  qed
  have le: "length (puts (trace ?out)) \<le> 1"
  proof (cases "puts (trace ?out) = []")
    case True
    then show ?thesis by simp
  next
    case False
    with some show ?thesis by blast
  qed
  have none: "puts (trace ?out) = [] \<longrightarrow> store ?out = st \<and> (\<exists>e. result ?out = Inl e)"
    using handler_no_put [of sv environ st event ctx] by blast
  have ret: "\<forall>v. result ?out = Inr v \<longrightarrow> puts (trace ?out) \<noteq> []"
    using handler_returns [of sv environ st event ctx] by blast
  from le none some ret show ?thesis by blast
qed

lemma object_at_after_put:
  assumes "st tb = Some objs"
  shows "object_at (st(tb \<mapsto> objs(tk \<mapsto> body))) b' k' =
    (if b' = tb \<and> k' = tk then Some body else object_at st b' k')"
  using assms by (auto simp: object_at_def)

lemma handler_on_s3:
  fixes sv :: "(s3, 'img) services"
  assumes "put_object sv = s3_put_object"
  shows "(\<forall>e. result (lambda_handler sv environ st event ctx) = Inl e \<longrightarrow>
      store (lambda_handler sv environ st event ctx) = st) \<and>
    (\<forall>v. result (lambda_handler sv environ st event ctx) = Inr v \<longrightarrow>
      (\<exists>k tb body. event_key event = Inr (JStr k) \<and> environ ''DEST_BUCKET'' = Some tb \<and>
         puts (trace (lambda_handler sv environ st event ctx)) =
           [PutObjectCall tb (thumbnail_key k) body] \<and>
         object_at (store (lambda_handler sv environ st event ctx)) tb (thumbnail_key k) = Some body \<and>
         (\<forall>b' k'. (b', k') \<noteq> (tb, thumbnail_key k) \<longrightarrow>
            object_at (store (lambda_handler sv environ st event ctx)) b' k' = object_at st b' k')))"
proof -
  let ?out = "lambda_handler sv environ st event ctx"
  have raised: "\<forall>e. result ?out = Inl e \<longrightarrow> store ?out = st"
  proof (intro allI impI)
    fix e assume e: "result ?out = Inl e"
    show "store ?out = st"
    proof (cases "puts (trace ?out) = []")
      case True
      with handler_no_put [of sv environ st event ctx] show ?thesis by simp
    next
      case False
      from handler_some_put [OF False] obtain tb tk body where
        "PutObjectCall tb tk body \<in> set (trace ?out)" by blast
      from handler_put_call [OF this] obtain b k data img img' where
        s: "event_bucket event = Inr (JStr b)" "event_key event = Inr (JStr k)"
           "environ ''DEST_BUCKET'' = Some tb" "get_object sv st b k = Inr data"
           "image_open sv data = Inr img" "image_thumbnail sv img (500, 500) = Inr img'"
           "image_save sv img' ''JPEG'' = Inr body"
        by blast
      note run = handler_upload [where sv = sv and environ = environ, OF s, of ctx]
      show ?thesis
      proof (cases "st tb")
        case None
        then show ?thesis by (simp add: run assms s3_put_object_def)
      next
        case (Some objs)
        then have "result ?out = Inr event"
          by (simp add: run assms s3_put_object_def upload_result_def status_code_ok)
        with e show ?thesis by simp
      qed
    qed
  qed
  have returned: "\<forall>v. result ?out = Inr v \<longrightarrow>
      (\<exists>k tb body. event_key event = Inr (JStr k) \<and> environ ''DEST_BUCKET'' = Some tb \<and>
         puts (trace ?out) = [PutObjectCall tb (thumbnail_key k) body] \<and>
         object_at (store ?out) tb (thumbnail_key k) = Some body \<and>
         (\<forall>b' k'. (b', k') \<noteq> (tb, thumbnail_key k) \<longrightarrow>
            object_at (store ?out) b' k' = object_at st b' k'))"
  proof (intro allI impI)
    fix v assume "result ?out = Inr v"
    from handler_success [OF this] obtain b k tb data img img' body sent_data where
      s: "event_bucket event = Inr (JStr b)" "event_key event = Inr (JStr k)"
         "environ ''DEST_BUCKET'' = Some tb" "get_object sv st b k = Inr data"
         "image_open sv data = Inr img" "image_thumbnail sv img (500, 500) = Inr img'"
         "image_save sv img' ''JPEG'' = Inr body"
      and p: "fst (put_object sv st tb (thumbnail_key k) body) = Inr sent_data"
      by blast
    let ?tk = "thumbnail_key k"
    from p assms s3_put_object_Inr [of st tb ?tk body sent_data] obtain objs where
      objs: "st tb = Some objs"
      and put: "put_object sv st tb ?tk body = (Inr ok_response, st(tb \<mapsto> objs(?tk \<mapsto> body)))"
      by auto
    note run = handler_upload [where sv = sv and environ = environ, OF s, of ctx]
    have st': "store ?out = st(tb \<mapsto> objs(?tk \<mapsto> body))" by (simp add: run put)
    have puts: "puts (trace ?out) = [PutObjectCall tb ?tk body]" by (simp add: run puts_def)
    have there: "object_at (store ?out) tb ?tk = Some body"
      by (simp add: st' object_at_after_put [where st = st, OF objs])
    have rest: "\<forall>b' k'. (b', k') \<noteq> (tb, ?tk) \<longrightarrow>
        object_at (store ?out) b' k' = object_at st b' k'"
      by (simp add: st' object_at_after_put [where st = st, OF objs])
    from s(2) s(3) puts there rest
    show "\<exists>k tb body. event_key event = Inr (JStr k) \<and> environ ''DEST_BUCKET'' = Some tb \<and>
         puts (trace ?out) = [PutObjectCall tb (thumbnail_key k) body] \<and>
         object_at (store ?out) tb (thumbnail_key k) = Some body \<and>
         (\<forall>b' k'. (b', k') \<noteq> (tb, thumbnail_key k) \<longrightarrow>
            object_at (store ?out) b' k' = object_at st b' k')"
      by blast
  qed
  from raised returned show ?thesis by blast
qed

lemma wrong_type_lookup: "wrong_type v ks \<Longrightarrow> lookup_path v ks = Inl TypeError"
  by (induction v ks rule: wrong_type.induct) (auto simp: and_then_def split: option.splits)

subsection \<open>Running the handler on concrete inputs\<close>

lemmas run_defs =
  lambda_handler_def toy_services_def failing_services_def s3_get_object_def s3_put_object_def
  failing_put_def toy_open_def thumbnail_size_def round_aspect_def demo_environ_def demo_store_def cat_store_def
  archive_environ_def nowhere_environ_def small_store_def wide_store_def
  png_store_def s3_event_def s3_record_def other_record_def event_bucket_def event_key_def
  first_record_def record_bucket_def record_key_def and_then_def emit_def raise_def
  thumbnail_key_def status_code_def ok_response_def puts_def storage_calls_def env_reads_def
  object_at_def raised_def

lemma splitext_img: "splitext ''img.jpg'' = (''img'', ''.jpg'')"
  by code_simp

lemma splitext_missing: "splitext ''missing.jpg'' = (''missing'', ''.jpg'')"
  by code_simp

lemma splitext_cat: "splitext ''photos/cat.jpeg'' = (''photos/cat'', ''.jpeg'')"
  by code_simp

lemma splitext_logo: "splitext ''art/logo.png'' = (''art/logo'', ''.png'')"
  by code_simp

lemmas run_simps = run_defs splitext_img splitext_missing splitext_cat splitext_logo

section \<open>The claims\<close>

subsection \<open>C1: the destination key\<close>

text \<open>
  C1. For every source key, the destination key is \<open>name + "_thumbnail" + ext\<close>, where
  \<open>(name, ext) = os.path.splitext(key)\<close>: the two parts make up the key again, and \<open>ext\<close> is
  either empty or starts at the last dot of the key and holds no further dot and no slash.
  Every \<open>put_object\<close> call of the handler uses this key, derived from the key of the first
  record. \<open>"a/b/pic.png"\<close> gives \<open>"a/b/pic_thumbnail.png"\<close>; \<open>"a/b/pic"\<close> has no extension and
  gives \<open>"a/b/pic_thumbnail"\<close>. (A dot in a directory name or at the start of the file name
  separates no extension: \<open>"a.b/pic"\<close> and \<open>"a/.pic"\<close> have none.)
\<close>

theorem destination_key_derivation:
  "thumbnail_key key = fst (splitext key) @ ''_thumbnail'' @ snd (splitext key) \<and>
   fst (splitext key) @ snd (splitext key) = key \<and>
   (snd (splitext key) = [] \<or>
    hd (snd (splitext key)) = CHR ''.'' \<and> CHR ''.'' \<notin> set (tl (snd (splitext key))) \<and>
    CHR ''/'' \<notin> set (snd (splitext key))) \<and>
   (\<forall>tb tk body. PutObjectCall tb tk body \<in> set (trace (lambda_handler sv environ st event ctx)) \<longrightarrow>
      (\<exists>k. event_key event = Inr (JStr k) \<and> tk = thumbnail_key k)) \<and>
   thumbnail_key ''a/b/pic.png'' = ''a/b/pic_thumbnail.png'' \<and>
   thumbnail_key ''a/b/pic'' = ''a/b/pic_thumbnail'' \<and>
   snd (splitext ''a/b/pic'') = [] \<and>
   thumbnail_key ''a.b/pic'' = ''a.b/pic_thumbnail'' \<and>
   thumbnail_key ''a/.pic'' = ''a/.pic_thumbnail''"
proof -
  have shape: "snd (splitext key) = [] \<or>
    hd (snd (splitext key)) = CHR ''.'' \<and> CHR ''.'' \<notin> set (tl (snd (splitext key))) \<and>
    CHR ''/'' \<notin> set (snd (splitext key))"
    using splitext_ext_shape [of key] by (auto simp: sep_def extsep_def)
  have put: "\<forall>tb tk body. PutObjectCall tb tk body \<in> set (trace (lambda_handler sv environ st event ctx)) \<longrightarrow>
      (\<exists>k. event_key event = Inr (JStr k) \<and> tk = thumbnail_key k)"
    using handler_put_call [of _ _ _ sv environ st event ctx] by blast
  have ex1: "thumbnail_key ''a/b/pic.png'' = ''a/b/pic_thumbnail.png''" by code_simp
  have ex2: "thumbnail_key ''a/b/pic'' = ''a/b/pic_thumbnail''" by code_simp
  have ex3: "snd (splitext ''a/b/pic'') = []" by code_simp
  have ex4: "thumbnail_key ''a.b/pic'' = ''a.b/pic_thumbnail''" by code_simp
  have ex5: "thumbnail_key ''a/.pic'' = ''a/.pic_thumbnail''" by code_simp
  show ?thesis
    using thumbnail_key_eq [of key] splitext_concat [of key] shape put ex1 ex2 ex3 ex4 ex5
    by blast
qed

theorem destination_key_derivation_witness:
  "PutObjectCall ''dst'' ''photos/cat_thumbnail.jpeg'' [500, 222]
     \<in> set (trace (lambda_handler toy_services demo_environ cat_store
          (s3_event ''up'' ''photos/cat.jpeg'' []) ''ctx'')) \<and>
   (\<exists>k. event_key (s3_event ''up'' ''photos/cat.jpeg'' []) = Inr (JStr k) \<and>
        ''photos/cat_thumbnail.jpeg'' = thumbnail_key k) \<and>
   thumbnail_key ''photos/cat.jpeg'' =
     fst (splitext ''photos/cat.jpeg'') @ ''_thumbnail'' @ snd (splitext ''photos/cat.jpeg'') \<and>
   splitext ''photos/cat.jpeg'' = (''photos/cat'', ''.jpeg'')"
proof -
  have put: "PutObjectCall ''dst'' ''photos/cat_thumbnail.jpeg'' [500, 222]
     \<in> set (trace (lambda_handler toy_services demo_environ cat_store
          (s3_event ''up'' ''photos/cat.jpeg'' []) ''ctx''))"
    by (simp add: run_simps)
  have split: "splitext ''photos/cat.jpeg'' = (''photos/cat'', ''.jpeg'')"
    by code_simp
  from put split show ?thesis
    using destination_key_derivation [of "''photos/cat.jpeg''" toy_services demo_environ
      cat_store "s3_event ''up'' ''photos/cat.jpeg'' []" "''ctx''"]
    by blast
qed

subsection \<open>C2: the resize\<close>

text \<open>
  C2, for an image library whose \<open>thumbnail\<close> follows the size rule \<open>thumbnail_size\<close>. In
  every invocation, if the decoded image is \<open>w\<close> by \<open>h\<close> (the size logged at line 30) and the
  image after \<open>img.thumbnail((500, 500))\<close> is \<open>w'\<close> by \<open>h'\<close> (the size logged at line 34), then
  neither \<open>w'\<close> nor \<open>h'\<close> exceeds 500; if \<open>w\<close> and \<open>h\<close> are both at most 500 the size is
  unchanged; for an image with positive dimensions no dimension grows and none becomes
  zero, and when the image was shrunk, one dimension is exactly 500 and the other is less
  than one unit away from the exactly proportional value (\<open>|w' * h - 500 * w| < h\<close>, or
  \<open>|h' * w - 500 * h| < w\<close>); and a 1000 by 500 image becomes 500 by 250.
\<close>

theorem resize_within_bound:
  assumes "follows_size_rule sv"
    and "Log (LogSizeBefore (w, h)) \<in> set (trace (lambda_handler sv environ st event ctx))"
    and "Log (LogSizeAfter (w', h')) \<in> set (trace (lambda_handler sv environ st event ctx))"
  shows "(w', h') = thumbnail_size (w, h) (500, 500) \<and>
    w' \<le> 500 \<and> h' \<le> 500 \<and>
    (w \<le> 500 \<and> h \<le> 500 \<longrightarrow> w' = w \<and> h' = h) \<and>
    (0 < w \<and> 0 < h \<longrightarrow>
       w' \<le> w \<and> h' \<le> h \<and> 0 < w' \<and> 0 < h' \<and>
       (\<not> (w \<le> 500 \<and> h \<le> 500) \<longrightarrow>
          h' = 500 \<and> \<bar>int w' * int h - int (500 * w)\<bar> < int h \<or>
          w' = 500 \<and> \<bar>int h' * int w - int (500 * h)\<bar> < int w)) \<and>
    (w = 1000 \<and> h = 500 \<longrightarrow> w' = 500 \<and> h' = 250)"
proof -
  from handler_sizes [OF assms(3)] obtain img img' where
    t: "image_thumbnail sv img (500, 500) = Inr img'" and a: "(w', h') = image_size sv img'"
    and b: "\<forall>s. Log (LogSizeBefore s) \<in> set (trace (lambda_handler sv environ st event ctx)) \<longrightarrow>
       s = image_size sv img"
    by blast
  from b assms(2) have "image_size sv img = (w, h)" by auto
  with assms(1) t a have eq: "(w', h') = thumbnail_size (w, h) (500, 500)"
    by (simp add: follows_size_rule_def)
  then have f: "w' = fst (thumbnail_size (w, h) (500, 500))"
    and s: "h' = snd (thumbnail_size (w, h) (500, 500))"
    by (metis fst_conv, metis snd_conv)
  have bound: "w' \<le> 500 \<and> h' \<le> 500"
    unfolding f s using thumbnail_size_bound [of 500 500 w h] by simp
  have same: "w \<le> 500 \<and> h \<le> 500 \<longrightarrow> w' = w \<and> h' = h"
    unfolding f s by (simp add: thumbnail_size_within)
  have pos: "0 < w \<and> 0 < h \<longrightarrow>
       w' \<le> w \<and> h' \<le> h \<and> 0 < w' \<and> 0 < h' \<and>
       (\<not> (w \<le> 500 \<and> h \<le> 500) \<longrightarrow>
          h' = 500 \<and> \<bar>int w' * int h - int (500 * w)\<bar> < int h \<or>
          w' = 500 \<and> \<bar>int h' * int w - int (500 * h)\<bar> < int w)"
  proof
    assume p: "0 < w \<and> 0 < h"
    then have pw: "0 < w" and ph: "0 < h" by simp_all
    have up: "w' \<le> w \<and> h' \<le> h"
      unfolding f s using thumbnail_size_no_upscale [of 500 500 w h] pw ph by simp
    have ps: "0 < w' \<and> 0 < h'"
      unfolding f s using thumbnail_size_pos [of w h 500 500] pw ph by simp
    have asp: "\<not> (w \<le> 500 \<and> h \<le> 500) \<longrightarrow>
          h' = 500 \<and> \<bar>int w' * int h - int (500 * w)\<bar> < int h \<or>
          w' = 500 \<and> \<bar>int h' * int w - int (500 * h)\<bar> < int w"
    proof
      assume "\<not> (w \<le> 500 \<and> h \<le> 500)"
      from thumbnail_size_aspect [of 500 500 w h, OF _ _ pw ph this]
      show "h' = 500 \<and> \<bar>int w' * int h - int (500 * w)\<bar> < int h \<or>
          w' = 500 \<and> \<bar>int h' * int w - int (500 * h)\<bar> < int w"
        unfolding f s by simp
    qed
    from up ps asp show "w' \<le> w \<and> h' \<le> h \<and> 0 < w' \<and> 0 < h' \<and>
       (\<not> (w \<le> 500 \<and> h \<le> 500) \<longrightarrow>
          h' = 500 \<and> \<bar>int w' * int h - int (500 * w)\<bar> < int h \<or>
          w' = 500 \<and> \<bar>int h' * int w - int (500 * h)\<bar> < int w)"
      by blast
  qed
  have ex: "w = 1000 \<and> h = 500 \<longrightarrow> w' = 500 \<and> h' = 250"
  proof
    assume "w = 1000 \<and> h = 500"
    with eq have "(w', h') = thumbnail_size (1000, 500) (500, 500)" by simp
    also have "\<dots> = (500, 250)" by (simp add: thumbnail_size_def round_aspect_def)
    finally show "w' = 500 \<and> h' = 250" by simp
  qed
  from eq bound same pos ex show ?thesis by blast
qed

theorem resize_within_bound_witness:
  "follows_size_rule toy_services \<and>
   Log (LogSizeBefore (1000, 500))
     \<in> set (trace (lambda_handler toy_services demo_environ wide_store
          (s3_event ''src'' ''img.jpg'' []) ''ctx'')) \<and>
   Log (LogSizeAfter (500, 250))
     \<in> set (trace (lambda_handler toy_services demo_environ wide_store
          (s3_event ''src'' ''img.jpg'' []) ''ctx'')) \<and>
   (500, 250) = thumbnail_size (1000, 500) (500, 500) \<and>
   Log (LogSizeBefore (100, 50))
     \<in> set (trace (lambda_handler toy_services archive_environ small_store
          (s3_event ''src'' ''img.jpg'' []) ''ctx'')) \<and>
   Log (LogSizeAfter (100, 50))
     \<in> set (trace (lambda_handler toy_services archive_environ small_store
          (s3_event ''src'' ''img.jpg'' []) ''ctx''))"
proof -
  have a: "Log (LogSizeBefore (1000, 500))
     \<in> set (trace (lambda_handler toy_services demo_environ wide_store
          (s3_event ''src'' ''img.jpg'' []) ''ctx''))"
    by (simp add: run_simps)
  have b: "Log (LogSizeAfter (500, 250))
     \<in> set (trace (lambda_handler toy_services demo_environ wide_store
          (s3_event ''src'' ''img.jpg'' []) ''ctx''))"
    by (simp add: run_simps)
  have c: "Log (LogSizeBefore (100, 50))
     \<in> set (trace (lambda_handler toy_services archive_environ small_store
          (s3_event ''src'' ''img.jpg'' []) ''ctx''))"
    by (simp add: run_simps)
  have d: "Log (LogSizeAfter (100, 50))
     \<in> set (trace (lambda_handler toy_services archive_environ small_store
          (s3_event ''src'' ''img.jpg'' []) ''ctx''))"
    by (simp add: run_simps)
  from resize_within_bound [OF toy_follows_size_rule a b] toy_follows_size_rule a b c d
  show ?thesis by blast
qed

subsection \<open>C3: the return value\<close>

text \<open>
  C3. On every invocation that raises nothing, the handler returns the event it was given.
  The value returned is therefore the same whatever the libraries did, whatever
  \<open>DEST_BUCKET\<close> held and whatever the storage service contained: it carries nothing about
  the destination key or the size of the thumbnail.
\<close>

theorem handler_returns_event:
  assumes "result (lambda_handler sv environ st event ctx) = Inr v"
  shows "v = event \<and>
    (\<forall>sv' environ' st' ctx' v'.
       result (lambda_handler (sv' :: ('st, 'img) services) environ' st' event ctx') = Inr v' \<longrightarrow> v' = v)"
proof -
  have v: "v = event" using handler_returns [OF assms] by simp
  have "\<forall>sv' environ' st' ctx' v'.
       result (lambda_handler (sv' :: ('st, 'img) services) environ' st' event ctx') = Inr v' \<longrightarrow> v' = v"
  proof (intro allI impI)
    fix sv' :: "('st, 'img) services" and environ' st' ctx' v'
    assume "result (lambda_handler sv' environ' st' event ctx') = Inr v'"
    from handler_returns [OF this] v show "v' = v" by simp
  qed
  with v show ?thesis by blast
qed

theorem handler_returns_event_witness:
  "result (lambda_handler toy_services demo_environ demo_store (s3_event ''src'' ''img.jpg'' []) ''ctx'')
     = Inr (s3_event ''src'' ''img.jpg'' []) \<and>
   puts (trace (lambda_handler toy_services demo_environ demo_store
       (s3_event ''src'' ''img.jpg'' []) ''ctx''))
     = [PutObjectCall ''dst'' ''img_thumbnail.jpg'' [500, 375]] \<and>
   result (lambda_handler toy_services archive_environ small_store (s3_event ''src'' ''img.jpg'' []) ''c2'')
     = Inr (s3_event ''src'' ''img.jpg'' []) \<and>
   puts (trace (lambda_handler toy_services archive_environ small_store
       (s3_event ''src'' ''img.jpg'' []) ''c2''))
     = [PutObjectCall ''archive'' ''img_thumbnail.jpg'' [100, 50]]"
proof -
  have a: "result (lambda_handler toy_services demo_environ demo_store
      (s3_event ''src'' ''img.jpg'' []) ''ctx'') = Inr (s3_event ''src'' ''img.jpg'' [])"
    by (simp add: run_simps)
  have b: "puts (trace (lambda_handler toy_services demo_environ demo_store
       (s3_event ''src'' ''img.jpg'' []) ''ctx''))
     = [PutObjectCall ''dst'' ''img_thumbnail.jpg'' [500, 375]]"
    by (simp add: run_simps)
  have c: "puts (trace (lambda_handler toy_services archive_environ small_store
       (s3_event ''src'' ''img.jpg'' []) ''c2''))
     = [PutObjectCall ''archive'' ''img_thumbnail.jpg'' [100, 50]]"
    by (simp add: run_simps)
  obtain v' where d: "result (lambda_handler toy_services archive_environ small_store
      (s3_event ''src'' ''img.jpg'' []) ''c2'') = Inr v'"
    by (simp add: run_simps)
  note same = conjunct2 [OF handler_returns_event [OF a], rule_format]
  from same [OF d] have "v' = s3_event ''src'' ''img.jpg'' []" .
  with a b c d show ?thesis by simp
qed

subsection \<open>C4: \<open>DEST_BUCKET\<close> unset\<close>

text \<open>
  C4, as stated, says that for every event an unset \<open>DEST_BUCKET\<close> makes the invocation fail
  with the missing-variable error. Lines 17 and 18 read the event before line 21 reads the
  variable: for the event \<open>{}\<close> the invocation ends with \<open>KeyError('Records')\<close> and the
  environment is never read.
\<close>

theorem unset_dest_bucket_counterexample:
  "unset_environ ''DEST_BUCKET'' = None \<and>
   result (lambda_handler toy_services unset_environ demo_store (JObj []) ''ctx'')
     = Inl (KeyError ''Records'') \<and>
   result (lambda_handler toy_services unset_environ demo_store (JObj []) ''ctx'')
     \<noteq> Inl (KeyError ''DEST_BUCKET'') \<and>
   env_reads (trace (lambda_handler toy_services unset_environ demo_store (JObj []) ''ctx'')) = []"
  by code_simp

text \<open>
  C4, amended. When \<open>DEST_BUCKET\<close> is unset, every invocation fails, calls neither
  \<open>get_object\<close> nor \<open>put_object\<close> and leaves the storage service as it was; and for every
  event from which lines 17 and 18 read a bucket name and a key, the failure is the
  missing-variable error \<open>KeyError('DEST_BUCKET')\<close>.
\<close>

theorem unset_dest_bucket_fails_before_storage:
  assumes "environ ''DEST_BUCKET'' = None"
  shows "(\<exists>e. result (lambda_handler sv environ st event ctx) = Inl e) \<and>
    storage_calls (trace (lambda_handler sv environ st event ctx)) = [] \<and>
    store (lambda_handler sv environ st event ctx) = st \<and>
    ((\<exists>b k. event_bucket event = Inr b \<and> event_key event = Inr k) \<longrightarrow>
       result (lambda_handler sv environ st event ctx) = Inl (KeyError ''DEST_BUCKET''))"
proof (cases "\<exists>b k. event_bucket event = Inr b \<and> event_key event = Inr k")
  case True
  then obtain b k where "event_bucket event = Inr b" "event_key event = Inr k" by blast
  from handler_unset_variable [where environ = environ, OF this assms, of sv st ctx] show ?thesis
    by (simp add: storage_calls_def)
next
  case False
  then obtain e where
    "event_bucket event = Inl e \<or> (\<exists>b. event_bucket event = Inr b \<and> event_key event = Inl e)"
    by (cases "event_bucket event"; cases "event_key event") auto
  from handler_early_failure [OF this, of sv environ st ctx] False show ?thesis
    by (auto simp: storage_calls_def)
qed

theorem unset_dest_bucket_fails_before_storage_witness:
  "unset_environ ''DEST_BUCKET'' = None \<and>
   event_bucket (s3_event ''src'' ''img.jpg'' []) = Inr (JStr ''src'') \<and>
   event_key (s3_event ''src'' ''img.jpg'' []) = Inr (JStr ''img.jpg'') \<and>
   result (lambda_handler toy_services unset_environ demo_store (s3_event ''src'' ''img.jpg'' []) ''ctx'')
     = Inl (KeyError ''DEST_BUCKET'') \<and>
   storage_calls (trace (lambda_handler toy_services unset_environ demo_store
     (s3_event ''src'' ''img.jpg'' []) ''ctx'')) = []"
proof -
  have a: "unset_environ ''DEST_BUCKET'' = None" by code_simp
  have b: "event_bucket (s3_event ''src'' ''img.jpg'' []) = Inr (JStr ''src'')" by code_simp
  have c: "event_key (s3_event ''src'' ''img.jpg'' []) = Inr (JStr ''img.jpg'')" by code_simp
  from unset_dest_bucket_fails_before_storage [where environ = unset_environ, OF a, of toy_services demo_store
      "s3_event ''src'' ''img.jpg'' []" "''ctx''"] a b c
  show ?thesis by blast
qed

subsection \<open>C5: an upload that did not succeed\<close>

text \<open>
  C5. Whenever the handler has called \<open>put_object\<close> and the status code of the response is
  not 200, the invocation ends with the exception whose message is
  \<open>"Failed to upload image " + key + " to bucket " + bucket\<close>, where \<open>key\<close> and \<open>bucket\<close> are
  the key and the bucket name of the first record of the event (the source), while the put
  went to the bucket named by \<open>DEST_BUCKET\<close> under the derived key.
\<close>

theorem failed_upload_names_source:
  assumes "PutObjectCall tb tk body \<in> set (trace (lambda_handler sv environ st event ctx))"
    and "fst (put_object sv st tb tk body) = Inr sent_data"
    and "status_code sent_data = Inr code" and "code \<noteq> JNum 200"
  shows "\<exists>b k. event_bucket event = Inr (JStr b) \<and> event_key event = Inr (JStr k) \<and>
    environ ''DEST_BUCKET'' = Some tb \<and> tk = thumbnail_key k \<and>
    result (lambda_handler sv environ st event ctx) =
      Inl (Exception (''Failed to upload image '' @ k @ '' to bucket '' @ b))"
proof -
  from handler_put_call [OF assms(1)] obtain b k data img img' where
    s: "event_bucket event = Inr (JStr b)" "event_key event = Inr (JStr k)"
       "environ ''DEST_BUCKET'' = Some tb" "get_object sv st b k = Inr data"
       "image_open sv data = Inr img" "image_thumbnail sv img (500, 500) = Inr img'"
       "image_save sv img' ''JPEG'' = Inr body"
    and tk: "tk = thumbnail_key k"
    by blast
  have "result (lambda_handler sv environ st event ctx) =
      upload_result event b k (fst (put_object sv st tb tk body))"
    by (simp add: handler_upload [where sv = sv and environ = environ, OF s] tk)
  with assms(2-4) have "result (lambda_handler sv environ st event ctx) =
      Inl (Exception (''Failed to upload image '' @ k @ '' to bucket '' @ b))"
    by (simp add: upload_result_def)
  with s tk show ?thesis by blast
qed

theorem failed_upload_names_source_witness:
  "PutObjectCall ''dst'' ''img_thumbnail.jpg'' [500, 375]
     \<in> set (trace (lambda_handler failing_services demo_environ demo_store
          (s3_event ''src'' ''img.jpg'' []) ''ctx'')) \<and>
   status_code (JObj [(''ResponseMetadata'', JObj [(''HTTPStatusCode'', JNum 500)])]) = Inr (JNum 500) \<and>
   result (lambda_handler failing_services demo_environ demo_store (s3_event ''src'' ''img.jpg'' []) ''ctx'')
     = Inl (Exception ''Failed to upload image img.jpg to bucket src'')"
proof -
  have a: "PutObjectCall ''dst'' ''img_thumbnail.jpg'' [500, 375]
     \<in> set (trace (lambda_handler failing_services demo_environ demo_store
          (s3_event ''src'' ''img.jpg'' []) ''ctx''))"
    by (simp add: run_simps)
  have b: "fst (put_object failing_services demo_store ''dst'' ''img_thumbnail.jpg'' [500, 375])
    = Inr (JObj [(''ResponseMetadata'', JObj [(''HTTPStatusCode'', JNum 500)])])"
    by code_simp
  have c: "status_code (JObj [(''ResponseMetadata'', JObj [(''HTTPStatusCode'', JNum 500)])])
    = Inr (JNum 500)"
    by code_simp
  have d: "JNum 500 \<noteq> JNum 200" by simp
  have e: "event_bucket (s3_event ''src'' ''img.jpg'' []) = Inr (JStr ''src'')" by code_simp
  have f: "event_key (s3_event ''src'' ''img.jpg'' []) = Inr (JStr ''img.jpg'')" by code_simp
  from failed_upload_names_source [OF a b c d] e f
  have "result (lambda_handler failing_services demo_environ demo_store
      (s3_event ''src'' ''img.jpg'' []) ''ctx'')
     = Inl (Exception (''Failed to upload image '' @ ''img.jpg'' @ '' to bucket '' @ ''src''))"
    by auto
  with a c show ?thesis by simp
qed

subsection \<open>C6: one write or none\<close>

text \<open>
  C6. Every invocation calls \<open>put_object\<close> at most once. When it makes no such call, the
  storage service is left as it was and the invocation ends with an exception. It makes the
  call only when every earlier step has succeeded (the reads of the event and of
  \<open>DEST_BUCKET\<close>, the fetch, the decoding, the resizing, the encoding), so a failure of any of
  them means no call; the storage calls of the invocation are then exactly one \<open>get_object\<close>
  of the source and one \<open>put_object\<close> of the encoded bytes under the derived key in the
  destination bucket. An invocation that returns has made that call. So far for any storage
  service. On the storage service described by the spec, there is no state in between: an
  invocation that raises leaves every object as it was, and an invocation that returns
  leaves the encoded bytes under the derived key of the destination bucket and every other
  object as it was.
\<close>

theorem at_most_one_write:
  fixes sv :: "(s3, 'img) services"
  shows
  "length (puts (trace (lambda_handler sv environ st event ctx))) \<le> 1 \<and>
   (puts (trace (lambda_handler sv environ st event ctx)) = [] \<longrightarrow>
      store (lambda_handler sv environ st event ctx) = st \<and>
      (\<exists>e. result (lambda_handler sv environ st event ctx) = Inl e)) \<and>
   (puts (trace (lambda_handler sv environ st event ctx)) \<noteq> [] \<longrightarrow>
      (\<exists>b k tb data img img' body.
         event_bucket event = Inr (JStr b) \<and> event_key event = Inr (JStr k) \<and>
         environ ''DEST_BUCKET'' = Some tb \<and>
         get_object sv st b k = Inr data \<and> image_open sv data = Inr img \<and>
         image_thumbnail sv img (500, 500) = Inr img' \<and>
         image_save sv img' ''JPEG'' = Inr body \<and>
         storage_calls (trace (lambda_handler sv environ st event ctx)) =
           [GetObjectCall (JStr b) k, PutObjectCall tb (thumbnail_key k) body] \<and>
         store (lambda_handler sv environ st event ctx) =
           snd (put_object sv st tb (thumbnail_key k) body))) \<and>
   (\<forall>v. result (lambda_handler sv environ st event ctx) = Inr v \<longrightarrow>
      puts (trace (lambda_handler sv environ st event ctx)) \<noteq> []) \<and>
   (put_object sv = s3_put_object \<longrightarrow>
      (\<forall>e. result (lambda_handler sv environ st event ctx) = Inl e \<longrightarrow>
         store (lambda_handler sv environ st event ctx) = st) \<and>
      (\<forall>v. result (lambda_handler sv environ st event ctx) = Inr v \<longrightarrow>
         (\<exists>k tb body. event_key event = Inr (JStr k) \<and> environ ''DEST_BUCKET'' = Some tb \<and>
            puts (trace (lambda_handler sv environ st event ctx)) =
              [PutObjectCall tb (thumbnail_key k) body] \<and>
            object_at (store (lambda_handler sv environ st event ctx)) tb (thumbnail_key k)
              = Some body \<and>
            (\<forall>b' k'. (b', k') \<noteq> (tb, thumbnail_key k) \<longrightarrow>
               object_at (store (lambda_handler sv environ st event ctx)) b' k'
                 = object_at st b' k'))))"
  using handler_writes [of sv environ st event ctx] handler_on_s3 [of sv environ st event ctx]
  by blast

theorem at_most_one_write_witness:
  "put_object toy_services = s3_put_object \<and>
   result (lambda_handler toy_services demo_environ demo_store
      (s3_event ''src'' ''img.jpg'' []) ''ctx'') = Inr (s3_event ''src'' ''img.jpg'' []) \<and>
   puts (trace (lambda_handler toy_services demo_environ demo_store
      (s3_event ''src'' ''img.jpg'' []) ''ctx''))
     = [PutObjectCall ''dst'' ''img_thumbnail.jpg'' [500, 375]] \<and>
   storage_calls (trace (lambda_handler toy_services demo_environ demo_store
      (s3_event ''src'' ''img.jpg'' []) ''ctx''))
     = [GetObjectCall (JStr ''src'') ''img.jpg'',
        PutObjectCall ''dst'' ''img_thumbnail.jpg'' [500, 375]] \<and>
   object_at demo_store ''dst'' ''img_thumbnail.jpg'' = None \<and>
   object_at (store (lambda_handler toy_services demo_environ demo_store
      (s3_event ''src'' ''img.jpg'' []) ''ctx'')) ''dst'' ''img_thumbnail.jpg'' = Some [500, 375] \<and>
   object_at (store (lambda_handler toy_services demo_environ demo_store
      (s3_event ''src'' ''img.jpg'' []) ''ctx'')) ''src'' ''img.jpg'' = Some [800, 600] \<and>
   puts (trace (lambda_handler toy_services demo_environ demo_store
      (s3_event ''src'' ''missing.jpg'' []) ''ctx'')) = [] \<and>
   store (lambda_handler toy_services demo_environ demo_store
      (s3_event ''src'' ''missing.jpg'' []) ''ctx'') = demo_store \<and>
   puts (trace (lambda_handler toy_services nowhere_environ demo_store
      (s3_event ''src'' ''img.jpg'' []) ''ctx''))
     = [PutObjectCall ''nowhere'' ''img_thumbnail.jpg'' [500, 375]] \<and>
   result (lambda_handler toy_services nowhere_environ demo_store
      (s3_event ''src'' ''img.jpg'' []) ''ctx'') = Inl (LibraryError ''NoSuchBucket'') \<and>
   store (lambda_handler toy_services nowhere_environ demo_store
      (s3_event ''src'' ''img.jpg'' []) ''ctx'') = demo_store"
proof -
  have p: "put_object toy_services = s3_put_object" by (simp add: toy_services_def)
  have r: "result (lambda_handler toy_services demo_environ demo_store
      (s3_event ''src'' ''img.jpg'' []) ''ctx'') = Inr (s3_event ''src'' ''img.jpg'' [])"
    by (simp add: run_simps)
  have a: "puts (trace (lambda_handler toy_services demo_environ demo_store
      (s3_event ''src'' ''img.jpg'' []) ''ctx''))
     = [PutObjectCall ''dst'' ''img_thumbnail.jpg'' [500, 375]]"
    by (simp add: run_simps)
  have b: "storage_calls (trace (lambda_handler toy_services demo_environ demo_store
      (s3_event ''src'' ''img.jpg'' []) ''ctx''))
     = [GetObjectCall (JStr ''src'') ''img.jpg'',
        PutObjectCall ''dst'' ''img_thumbnail.jpg'' [500, 375]]"
    by (simp add: run_simps)
  have n: "object_at demo_store ''dst'' ''img_thumbnail.jpg'' = None"
    by (simp add: run_simps)
  have o: "object_at demo_store ''src'' ''img.jpg'' = Some [800, 600]"
    by (simp add: run_simps)
  have c: "puts (trace (lambda_handler toy_services demo_environ demo_store
      (s3_event ''src'' ''missing.jpg'' []) ''ctx'')) = []"
    by (simp add: run_simps)
  have d: "puts (trace (lambda_handler toy_services nowhere_environ demo_store
      (s3_event ''src'' ''img.jpg'' []) ''ctx''))
     = [PutObjectCall ''nowhere'' ''img_thumbnail.jpg'' [500, 375]]"
    by (simp add: run_simps)
  have e: "result (lambda_handler toy_services nowhere_environ demo_store
      (s3_event ''src'' ''img.jpg'' []) ''ctx'') = Inl (LibraryError ''NoSuchBucket'')"
    by (simp add: run_simps)
  note ok = at_most_one_write [of toy_services demo_environ demo_store
      "s3_event ''src'' ''img.jpg'' []" "''ctx''"]
  note missing = at_most_one_write [of toy_services demo_environ demo_store
      "s3_event ''src'' ''missing.jpg'' []" "''ctx''"]
  note nowhere = at_most_one_write [of toy_services nowhere_environ demo_store
      "s3_event ''src'' ''img.jpg'' []" "''ctx''"]
  from ok p r a have there: "object_at (store (lambda_handler toy_services demo_environ demo_store
      (s3_event ''src'' ''img.jpg'' []) ''ctx'')) ''dst'' ''img_thumbnail.jpg'' = Some [500, 375]"
    by auto
  from ok p r a have "\<forall>b' k'. (b', k') \<noteq> (''dst'', ''img_thumbnail.jpg'') \<longrightarrow>
      object_at (store (lambda_handler toy_services demo_environ demo_store
        (s3_event ''src'' ''img.jpg'' []) ''ctx'')) b' k' = object_at demo_store b' k'"
    by auto
  with o have kept: "object_at (store (lambda_handler toy_services demo_environ demo_store
      (s3_event ''src'' ''img.jpg'' []) ''ctx'')) ''src'' ''img.jpg'' = Some [800, 600]"
    by simp
  from missing c have s1: "store (lambda_handler toy_services demo_environ demo_store
      (s3_event ''src'' ''missing.jpg'' []) ''ctx'') = demo_store"
    by blast
  from nowhere p e have s2: "store (lambda_handler toy_services nowhere_environ demo_store
      (s3_event ''src'' ''img.jpg'' []) ''ctx'') = demo_store"
    by blast
  from p r a b n there kept c s1 d e s2 show ?thesis by blast
qed

subsection \<open>C7: the extension of the key and the format of the bytes\<close>

text \<open>
  C7. The extension of the destination key, as \<open>os.path.splitext\<close> reads it, is the
  extension of the source key. The body of every \<open>put_object\<close> call is what
  \<open>img.save(buffer, "JPEG")\<close> wrote: the format argument is the constant \<open>"JPEG"\<close> and does not
  depend on the key, so the key \<open>"pic.png"\<close> gives an object named \<open>"pic_thumbnail.png"\<close> that
  holds JPEG bytes.
\<close>

theorem extension_kept_bytes_jpeg:
  "snd (splitext (thumbnail_key key)) = snd (splitext key) \<and>
   (\<forall>tb tk body. PutObjectCall tb tk body \<in> set (trace (lambda_handler sv environ st event ctx)) \<longrightarrow>
      (\<exists>k img. event_key event = Inr (JStr k) \<and> tk = thumbnail_key k \<and>
         snd (splitext tk) = snd (splitext k) \<and> image_save sv img ''JPEG'' = Inr body)) \<and>
   thumbnail_key ''pic.png'' = ''pic_thumbnail.png'' \<and>
   snd (splitext ''pic_thumbnail.png'') = ''.png''"
proof -
  have ext: "\<And>k. snd (splitext (thumbnail_key k)) = snd (splitext k)"
    by (simp add: splitext_thumbnail_key)
  have put: "\<forall>tb tk body. PutObjectCall tb tk body \<in> set (trace (lambda_handler sv environ st event ctx)) \<longrightarrow>
      (\<exists>k img. event_key event = Inr (JStr k) \<and> tk = thumbnail_key k \<and>
         snd (splitext tk) = snd (splitext k) \<and> image_save sv img ''JPEG'' = Inr body)"
  proof (intro allI impI)
    fix tb tk body
    assume "PutObjectCall tb tk body \<in> set (trace (lambda_handler sv environ st event ctx))"
    from handler_put_call [OF this] ext
    show "\<exists>k img. event_key event = Inr (JStr k) \<and> tk = thumbnail_key k \<and>
         snd (splitext tk) = snd (splitext k) \<and> image_save sv img ''JPEG'' = Inr body"
      by blast
  qed
  have ex1: "thumbnail_key ''pic.png'' = ''pic_thumbnail.png''" by code_simp
  have ex2: "snd (splitext ''pic_thumbnail.png'') = ''.png''" by code_simp
  from ext [of key] put ex1 ex2 show ?thesis by blast
qed

theorem extension_kept_bytes_jpeg_witness:
  "PutObjectCall ''dst'' ''art/logo_thumbnail.png'' [500, 375]
     \<in> set (trace (lambda_handler toy_services demo_environ png_store
          (s3_event ''src'' ''art/logo.png'' []) ''ctx'')) \<and>
   (\<exists>k img. event_key (s3_event ''src'' ''art/logo.png'' []) = Inr (JStr k) \<and>
      ''art/logo_thumbnail.png'' = thumbnail_key k \<and>
      snd (splitext ''art/logo_thumbnail.png'') = snd (splitext k) \<and>
      image_save toy_services img ''JPEG'' = Inr [500, 375]) \<and>
   snd (splitext ''art/logo.png'') = ''.png''"
proof -
  have a: "PutObjectCall ''dst'' ''art/logo_thumbnail.png'' [500, 375]
     \<in> set (trace (lambda_handler toy_services demo_environ png_store
          (s3_event ''src'' ''art/logo.png'' []) ''ctx''))"
    by (simp add: run_simps)
  have b: "snd (splitext ''art/logo.png'') = ''.png''" by code_simp
  from extension_kept_bytes_jpeg [of "''art/logo.png''" toy_services demo_environ png_store
      "s3_event ''src'' ''art/logo.png'' []" "''ctx''"] a b
  show ?thesis by blast
qed

subsection \<open>C8: records after the first\<close>

text \<open>
  C8. Take two events whose \<open>"Records"\<close> lists start with records that agree on
  \<open>s3.bucket.name\<close> and on \<open>s3.object.key\<close>; the records after the first are arbitrary and may
  differ in content and in number. Run on the same environment and the same storage
  service, the two invocations have the same effects after the first log line (which
  prints the event): the same read of \<open>DEST_BUCKET\<close>, the same \<open>get_object\<close> and \<open>put_object\<close>
  calls with the same bucket, key and body, the same state of the storage service afterwards,
  and the same exception, if any. (An invocation that returns, returns its own event.)
\<close>

theorem later_records_ignored:
  assumes "getitem e1 ''Records'' = Inr (JList (r1 # rs1))"
    and "getitem e2 ''Records'' = Inr (JList (r2 # rs2))"
    and "record_bucket r1 = record_bucket r2" and "record_key r1 = record_key r2"
  shows "tl (trace (lambda_handler sv environ st e1 ctx)) =
      tl (trace (lambda_handler sv environ st e2 ctx)) \<and>
    storage_calls (trace (lambda_handler sv environ st e1 ctx)) =
      storage_calls (trace (lambda_handler sv environ st e2 ctx)) \<and>
    store (lambda_handler sv environ st e1 ctx) = store (lambda_handler sv environ st e2 ctx) \<and>
    raised (lambda_handler sv environ st e1 ctx) = raised (lambda_handler sv environ st e2 ctx)"
proof -
  have b: "event_bucket e1 = event_bucket e2"
    using assms by (simp add: event_bucket_def first_record_list and_then_def)
  have k: "event_key e1 = event_key e2"
    using assms by (simp add: event_key_def first_record_list and_then_def)
  note same = handler_same_names [OF b k, of sv environ st ctx]
  have "\<And>e. storage_calls (trace (lambda_handler sv environ st e ctx)) =
      storage_calls (tl (trace (lambda_handler sv environ st e ctx)))"
    by (simp add: lambda_handler_def emit_def storage_calls_def)
  with same show ?thesis by simp
qed

theorem later_records_ignored_witness:
  "getitem (s3_event ''src'' ''img.jpg'' []) ''Records'' = Inr (JList [s3_record ''src'' ''img.jpg'']) \<and>
   getitem (s3_event ''src'' ''img.jpg'' [other_record, JNull]) ''Records''
     = Inr (JList [s3_record ''src'' ''img.jpg'', other_record, JNull]) \<and>
   storage_calls (trace (lambda_handler toy_services demo_environ demo_store
       (s3_event ''src'' ''img.jpg'' [other_record, JNull]) ''ctx''))
     = [GetObjectCall (JStr ''src'') ''img.jpg'',
        PutObjectCall ''dst'' ''img_thumbnail.jpg'' [500, 375]] \<and>
   storage_calls (trace (lambda_handler toy_services demo_environ demo_store
       (s3_event ''src'' ''img.jpg'' []) ''ctx''))
     = storage_calls (trace (lambda_handler toy_services demo_environ demo_store
       (s3_event ''src'' ''img.jpg'' [other_record, JNull]) ''ctx'')) \<and>
   raised (lambda_handler toy_services demo_environ demo_store
       (s3_event ''src'' ''img.jpg'' []) ''ctx'')
     = raised (lambda_handler toy_services demo_environ demo_store
       (s3_event ''src'' ''img.jpg'' [other_record, JNull]) ''ctx'')"
proof -
  have a: "getitem (s3_event ''src'' ''img.jpg'' []) ''Records''
      = Inr (JList (s3_record ''src'' ''img.jpg'' # []))"
    by (simp add: s3_event_def)
  have b: "getitem (s3_event ''src'' ''img.jpg'' [other_record, JNull]) ''Records''
      = Inr (JList (s3_record ''src'' ''img.jpg'' # [other_record, JNull]))"
    by (simp add: s3_event_def)
  have c: "storage_calls (trace (lambda_handler toy_services demo_environ demo_store
       (s3_event ''src'' ''img.jpg'' [other_record, JNull]) ''ctx''))
     = [GetObjectCall (JStr ''src'') ''img.jpg'',
        PutObjectCall ''dst'' ''img_thumbnail.jpg'' [500, 375]]"
    by (simp add: run_simps)
  from later_records_ignored [OF a b refl refl, of toy_services demo_environ demo_store "''ctx''"]
    a b c
  show ?thesis by simp
qed

subsection \<open>C9: invoking twice\<close>

text \<open>
  C9, on the storage service described by the spec (a put overwrites). If an invocation
  returns, then a second invocation with the same event and the same environment, run on
  the storage service as the first left it, calls \<open>put_object\<close> with the same destination
  bucket, the same derived key and the same bytes; the object the first invocation stored
  under that key is there when the second one runs; the second invocation returns the
  event, so the overwrite raises nothing; and the service ends in the same state, with the
  object under the destination key.
\<close>

theorem second_invocation_overwrites:
  assumes "get_object sv = s3_get_object" and "put_object sv = s3_put_object"
    and "result (lambda_handler sv environ st event ctx) = Inr v"
  shows "\<exists>tb k body.
    event_key event = Inr (JStr k) \<and> environ ''DEST_BUCKET'' = Some tb \<and>
    puts (trace (lambda_handler sv environ st event ctx)) = [PutObjectCall tb (thumbnail_key k) body] \<and>
    object_at (store (lambda_handler sv environ st event ctx)) tb (thumbnail_key k) = Some body \<and>
    result (lambda_handler sv environ (store (lambda_handler sv environ st event ctx)) event ctx')
      = Inr event \<and>
    puts (trace (lambda_handler sv environ (store (lambda_handler sv environ st event ctx)) event ctx'))
      = [PutObjectCall tb (thumbnail_key k) body] \<and>
    store (lambda_handler sv environ (store (lambda_handler sv environ st event ctx)) event ctx')
      = store (lambda_handler sv environ st event ctx)"
proof -
  let ?out1 = "lambda_handler sv environ st event ctx"
  from handler_success [OF assms(3)] obtain b k tb data img img' body sent_data where
    s: "event_bucket event = Inr (JStr b)" "event_key event = Inr (JStr k)"
       "environ ''DEST_BUCKET'' = Some tb" "get_object sv st b k = Inr data"
       "image_open sv data = Inr img" "image_thumbnail sv img (500, 500) = Inr img'"
       "image_save sv img' ''JPEG'' = Inr body"
    and p: "fst (put_object sv st tb (thumbnail_key k) body) = Inr sent_data"
    by blast
  let ?tk = "thumbnail_key k"
  from p assms(2) s3_put_object_Inr [of st tb ?tk body sent_data] obtain objs where
    objs: "st tb = Some objs"
    and put1: "put_object sv st tb ?tk body = (Inr ok_response, st(tb \<mapsto> objs(?tk \<mapsto> body)))"
    by auto
  let ?st1 = "st(tb \<mapsto> objs(?tk \<mapsto> body))"
  note run1 = handler_upload [where sv = sv and environ = environ, OF s, of ctx]
  have st1: "store ?out1 = ?st1" by (simp add: run1 put1)
  have puts1: "puts (trace ?out1) = [PutObjectCall tb ?tk body]" by (simp add: run1 puts_def)
  have get2: "get_object sv ?st1 b k = Inr data"
    using s(4) s3_get_after_put [where st = st, OF objs thumbnail_key_neq [of k], of body b]
    by (simp add: assms(1))
  note run2 = handler_upload [where sv = sv and environ = environ,
      OF s(1) s(2) s(3) get2 s(5) s(6) s(7), of ctx']
  have put2: "put_object sv ?st1 tb ?tk body = (Inr ok_response, ?st1)"
    by (simp add: assms(2) s3_put_object_def)
  have res2: "result (lambda_handler sv environ ?st1 event ctx') = Inr event"
    by (simp add: run2 put2 upload_result_def status_code_ok)
  have puts2: "puts (trace (lambda_handler sv environ ?st1 event ctx')) = [PutObjectCall tb ?tk body]"
    by (simp add: run2 puts_def)
  have st2: "store (lambda_handler sv environ ?st1 event ctx') = ?st1"
    by (simp add: run2 put2)
  have there: "object_at ?st1 tb ?tk = Some body"
    by (simp add: object_at_def)
  from s(2) s(3) puts1 there res2 puts2 st2 show ?thesis
    unfolding st1 by blast
qed

theorem second_invocation_overwrites_witness:
  "get_object toy_services = s3_get_object \<and> put_object toy_services = s3_put_object \<and>
   result (lambda_handler toy_services demo_environ demo_store (s3_event ''src'' ''img.jpg'' []) ''first'')
     = Inr (s3_event ''src'' ''img.jpg'' []) \<and>
   object_at demo_store ''dst'' ''img_thumbnail.jpg'' = None \<and>
   object_at (store (lambda_handler toy_services demo_environ demo_store
       (s3_event ''src'' ''img.jpg'' []) ''first'')) ''dst'' ''img_thumbnail.jpg'' = Some [500, 375] \<and>
   result (lambda_handler toy_services demo_environ
       (store (lambda_handler toy_services demo_environ demo_store
          (s3_event ''src'' ''img.jpg'' []) ''first''))
       (s3_event ''src'' ''img.jpg'' []) ''second'') = Inr (s3_event ''src'' ''img.jpg'' []) \<and>
   puts (trace (lambda_handler toy_services demo_environ
       (store (lambda_handler toy_services demo_environ demo_store
          (s3_event ''src'' ''img.jpg'' []) ''first''))
       (s3_event ''src'' ''img.jpg'' []) ''second''))
     = [PutObjectCall ''dst'' ''img_thumbnail.jpg'' [500, 375]]"
proof -
  have g: "get_object toy_services = s3_get_object" by (simp add: toy_services_def)
  have p: "put_object toy_services = s3_put_object" by (simp add: toy_services_def)
  have r: "result (lambda_handler toy_services demo_environ demo_store
      (s3_event ''src'' ''img.jpg'' []) ''first'') = Inr (s3_event ''src'' ''img.jpg'' [])"
    by (simp add: run_simps)
  have n: "object_at demo_store ''dst'' ''img_thumbnail.jpg'' = None" by code_simp
  have w: "puts (trace (lambda_handler toy_services demo_environ demo_store
      (s3_event ''src'' ''img.jpg'' []) ''first''))
      = [PutObjectCall ''dst'' ''img_thumbnail.jpg'' [500, 375]]"
    by (simp add: run_simps)
  from second_invocation_overwrites [OF g p r, of "''second''"] w
  have "object_at (store (lambda_handler toy_services demo_environ demo_store
       (s3_event ''src'' ''img.jpg'' []) ''first'')) ''dst'' ''img_thumbnail.jpg'' = Some [500, 375] \<and>
   result (lambda_handler toy_services demo_environ
       (store (lambda_handler toy_services demo_environ demo_store
          (s3_event ''src'' ''img.jpg'' []) ''first''))
       (s3_event ''src'' ''img.jpg'' []) ''second'') = Inr (s3_event ''src'' ''img.jpg'' []) \<and>
   puts (trace (lambda_handler toy_services demo_environ
       (store (lambda_handler toy_services demo_environ demo_store
          (s3_event ''src'' ''img.jpg'' []) ''first''))
       (s3_event ''src'' ''img.jpg'' []) ''second''))
     = [PutObjectCall ''dst'' ''img_thumbnail.jpg'' [500, 375]]"
    by auto
  with g p r n show ?thesis by blast
qed

subsection \<open>C10: an event without the fields\<close>

text \<open>
  C10, as stated, says that an event without a \<open>"Records"\<close> list, or whose first record has
  no \<open>s3.bucket.name\<close>, makes the handler fail with \<open>KeyError\<close> or \<open>IndexError\<close>. The event
  \<open>{"Records": null}\<close> has no such list, and \<open>event["Records"][0]\<close> raises \<open>TypeError\<close>
  (\<open>None\<close> is not subscriptable). The event whose first record is
  \<open>{"s3": {"bucket": "src", "object": {"key": "img.jpg"}}}\<close> has \<open>"Records"\<close> but no
  \<open>s3.bucket.name\<close>, and \<open>"src"["name"]\<close> raises \<open>TypeError\<close> as well.
\<close>

theorem null_records_counterexample:
  "getitem null_records_event ''Records'' = Inr JNull \<and>
   result (lambda_handler toy_services demo_environ demo_store null_records_event ''ctx'')
     = Inl TypeError \<and>
   missing_key string_bucket_event [''Records''] = None \<and>
   result (lambda_handler toy_services demo_environ demo_store string_bucket_event ''ctx'')
     = Inl TypeError"
  by code_simp

text \<open>
  C10, amended. Whenever line 17 or line 18 fails to read the bucket name or the key of the
  first record, the invocation ends with the exception of that lookup before \<open>DEST_BUCKET\<close> is
  read and before any storage call, and the storage service is left as it was; the
  exception is a \<open>KeyError\<close>, an \<open>IndexError\<close> or a \<open>TypeError\<close>. It is \<open>KeyError('Records')\<close>
  for an event that is a dict without \<open>"Records"\<close>, \<open>IndexError\<close> for an empty \<open>"Records"\<close>
  list, and the \<open>KeyError\<close> of the missing key when the dicts on the path \<open>s3.bucket.name\<close> of
  the first record miss a key, or when the bucket name is there and the dicts on the path
  \<open>s3.object.key\<close> miss one. It is \<open>TypeError\<close> when a value on the path cannot be
  subscripted as the handler does: an event that is not a dict, a \<open>"Records"\<close> that is
  \<open>null\<close>, a boolean or a number, and a first record in which the path \<open>s3.bucket.name\<close>, or
  with the bucket name there the path \<open>s3.object.key\<close>, reaches a value that is not a dict.
\<close>

theorem malformed_event_fails_first:
  "(event_bucket event = Inl e \<or> (\<exists>b. event_bucket event = Inr b \<and> event_key event = Inl e) \<longrightarrow>
      failed_early (lambda_handler sv environ st event ctx) e st \<and>
      ((\<exists>k. e = KeyError k) \<or> e = IndexError \<or> e = TypeError)) \<and>
   (missing_key event [''Records''] = Some k \<longrightarrow>
      failed_early (lambda_handler sv environ st event ctx) (KeyError ''Records'') st) \<and>
   (getitem event ''Records'' = Inr (JList []) \<longrightarrow>
      failed_early (lambda_handler sv environ st event ctx) IndexError st) \<and>
   (getitem event ''Records'' = Inr (JList (r # rs)) \<and>
    missing_key r [''s3'', ''bucket'', ''name''] = Some k \<longrightarrow>
      failed_early (lambda_handler sv environ st event ctx) (KeyError k) st) \<and>
   (getitem event ''Records'' = Inr (JList (r # rs)) \<and> record_bucket r = Inr b \<and>
    missing_key r [''s3'', ''object'', ''key''] = Some k \<longrightarrow>
      failed_early (lambda_handler sv environ st event ctx) (KeyError k) st) \<and>
   (wrong_type event [''Records''] \<longrightarrow>
      failed_early (lambda_handler sv environ st event ctx) TypeError st) \<and>
   (getitem event ''Records'' = Inr v \<and> (v = JNull \<or> (\<exists>x. v = JBool x) \<or> (\<exists>n. v = JNum n)) \<longrightarrow>
      failed_early (lambda_handler sv environ st event ctx) TypeError st) \<and>
   (first_record event = Inr r' \<and> wrong_type r' [''s3'', ''bucket'', ''name''] \<longrightarrow>
      failed_early (lambda_handler sv environ st event ctx) TypeError st) \<and>
   (first_record event = Inr r' \<and> record_bucket r' = Inr b' \<and>
    wrong_type r' [''s3'', ''object'', ''key''] \<longrightarrow>
      failed_early (lambda_handler sv environ st event ctx) TypeError st)"
proof -
  let ?out = "lambda_handler sv environ st event ctx"
  have general: "event_bucket event = Inl e \<or> (\<exists>b. event_bucket event = Inr b \<and> event_key event = Inl e) \<longrightarrow>
      failed_early ?out e st \<and> ((\<exists>k. e = KeyError k) \<or> e = IndexError \<or> e = TypeError)"
    using failed_early_run [of event e sv environ st ctx] event_bucket_Inl [of event e]
      event_key_Inl [of event e]
    by blast
  have norec: "missing_key event [''Records''] = Some k \<longrightarrow> failed_early ?out (KeyError ''Records'') st"
  proof
    assume m: "missing_key event [''Records''] = Some k"
    then have "k = ''Records''" by (cases event) (auto split: option.splits)
    with missing_key_lookup [OF m] have "getitem event ''Records'' = Inl (KeyError ''Records'')"
      by (simp add: and_then_def split: sum.splits)
    then have "event_bucket event = Inl (KeyError ''Records'')"
      by (simp add: event_bucket_def first_record_def and_then_def)
    then show "failed_early ?out (KeyError ''Records'') st"
      by (simp add: failed_early_run)
  qed
  have empty: "getitem event ''Records'' = Inr (JList []) \<longrightarrow> failed_early ?out IndexError st"
  proof
    assume "getitem event ''Records'' = Inr (JList [])"
    then have "event_bucket event = Inl IndexError"
      by (simp add: event_bucket_def first_record_def and_then_def)
    then show "failed_early ?out IndexError st"
      by (simp add: failed_early_run)
  qed
  have nobucket: "getitem event ''Records'' = Inr (JList (r # rs)) \<and>
    missing_key r [''s3'', ''bucket'', ''name''] = Some k \<longrightarrow> failed_early ?out (KeyError k) st"
  proof
    assume a: "getitem event ''Records'' = Inr (JList (r # rs)) \<and>
      missing_key r [''s3'', ''bucket'', ''name''] = Some k"
    then have "record_bucket r = Inl (KeyError k)"
      by (simp only: record_bucket_path missing_key_lookup)
    with a have "event_bucket event = Inl (KeyError k)"
      by (simp add: event_bucket_def first_record_list and_then_def)
    then show "failed_early ?out (KeyError k) st"
      by (simp add: failed_early_run)
  qed
  have nokey: "getitem event ''Records'' = Inr (JList (r # rs)) \<and> record_bucket r = Inr b \<and>
    missing_key r [''s3'', ''object'', ''key''] = Some k \<longrightarrow> failed_early ?out (KeyError k) st"
  proof
    assume a: "getitem event ''Records'' = Inr (JList (r # rs)) \<and> record_bucket r = Inr b \<and>
      missing_key r [''s3'', ''object'', ''key''] = Some k"
    then have "record_key r = Inl (KeyError k)"
      by (simp only: record_key_path missing_key_lookup)
    with a have "event_bucket event = Inr b \<and> event_key event = Inl (KeyError k)"
      by (simp add: event_bucket_def event_key_def first_record_list and_then_def)
    then show "failed_early ?out (KeyError k) st"
      by (simp add: failed_early_run)
  qed
  have nodict: "wrong_type event [''Records''] \<longrightarrow> failed_early ?out TypeError st"
  proof
    assume "wrong_type event [''Records'']"
    from wrong_type_lookup [OF this] have "getitem event ''Records'' = Inl TypeError"
      by (simp add: and_then_def split: sum.splits)
    then have "event_bucket event = Inl TypeError"
      by (simp add: event_bucket_def first_record_def and_then_def)
    then show "failed_early ?out TypeError st"
      by (simp add: failed_early_run)
  qed
  have nolist: "getitem event ''Records'' = Inr v \<and>
    (v = JNull \<or> (\<exists>x. v = JBool x) \<or> (\<exists>n. v = JNum n)) \<longrightarrow> failed_early ?out TypeError st"
  proof
    assume "getitem event ''Records'' = Inr v \<and>
      (v = JNull \<or> (\<exists>x. v = JBool x) \<or> (\<exists>n. v = JNum n))"
    then have "event_bucket event = Inl TypeError"
      by (auto simp: event_bucket_def first_record_def and_then_def)
    then show "failed_early ?out TypeError st"
      by (simp add: failed_early_run)
  qed
  have badbucket: "first_record event = Inr r' \<and> wrong_type r' [''s3'', ''bucket'', ''name''] \<longrightarrow>
    failed_early ?out TypeError st"
  proof
    assume a: "first_record event = Inr r' \<and> wrong_type r' [''s3'', ''bucket'', ''name'']"
    then have "record_bucket r' = Inl TypeError"
      by (simp only: record_bucket_path wrong_type_lookup)
    with a have "event_bucket event = Inl TypeError"
      by (simp add: event_bucket_def and_then_def)
    then show "failed_early ?out TypeError st"
      by (simp add: failed_early_run)
  qed
  have badkey: "first_record event = Inr r' \<and> record_bucket r' = Inr b' \<and>
    wrong_type r' [''s3'', ''object'', ''key''] \<longrightarrow> failed_early ?out TypeError st"
  proof
    assume a: "first_record event = Inr r' \<and> record_bucket r' = Inr b' \<and>
      wrong_type r' [''s3'', ''object'', ''key'']"
    then have "record_key r' = Inl TypeError"
      by (simp only: record_key_path wrong_type_lookup)
    with a have "event_bucket event = Inr b' \<and> event_key event = Inl TypeError"
      by (simp add: event_bucket_def event_key_def and_then_def)
    then show "failed_early ?out TypeError st"
      by (simp add: failed_early_run)
  qed
  from general norec empty nobucket nokey nodict nolist badbucket badkey show ?thesis by blast
qed

theorem malformed_event_fails_first_witness:
  "missing_key (JObj []) [''Records''] = Some ''Records'' \<and>
   failed_early (lambda_handler toy_services demo_environ demo_store (JObj []) ''ctx'')
     (KeyError ''Records'') demo_store \<and>
   getitem no_object_event ''Records''
     = Inr (JList [JObj [(''s3'', JObj [(''bucket'', JObj [(''name'', JStr ''src'')])])]]) \<and>
   missing_key (JObj [(''s3'', JObj [(''bucket'', JObj [(''name'', JStr ''src'')])])])
     [''s3'', ''object'', ''key''] = Some ''object'' \<and>
   failed_early (lambda_handler toy_services demo_environ demo_store no_object_event ''ctx'')
     (KeyError ''object'') demo_store \<and>
   result (lambda_handler toy_services demo_environ demo_store no_object_event ''ctx'')
     = Inl (KeyError ''object'')"
proof -
  let ?r = "JObj [(''s3'', JObj [(''bucket'', JObj [(''name'', JStr ''src'')])])]"
  have a: "missing_key (JObj []) [''Records''] = Some ''Records''" by simp
  have b: "getitem no_object_event ''Records'' = Inr (JList (?r # []))"
    by (simp add: no_object_event_def)
  have c: "record_bucket ?r = Inr (JStr ''src'')" by code_simp
  have d: "missing_key ?r [''s3'', ''object'', ''key''] = Some ''object''" by simp
  from malformed_event_fails_first [where event = "JObj []" and sv = toy_services
      and environ = demo_environ and st = demo_store and ctx = "''ctx''" and k = "''Records''"] a
  have e: "failed_early (lambda_handler toy_services demo_environ demo_store (JObj []) ''ctx'')
     (KeyError ''Records'') demo_store"
    by blast
  from malformed_event_fails_first [where event = no_object_event and sv = toy_services
      and environ = demo_environ and st = demo_store and ctx = "''ctx''" and r = ?r
      and rs = "[]" and k = "''object''" and b = "JStr ''src''"] b c d
  have f: "failed_early (lambda_handler toy_services demo_environ demo_store no_object_event ''ctx'')
     (KeyError ''object'') demo_store"
    by blast
  from a b d e f show ?thesis by (simp add: failed_early_def)
qed

end
